theory Spec2Isabelle
  imports Complex_Main "HOL-Library.Char_ord" "HOL-Library.List_Lexorder"
begin

section \<open>Values\<close>

text \<open>
  A Python float is a finite number, an infinity or NaN.  Finite values are reals: rounding
  and the sign of zero are not modelled.  NaN is also what pandas stores for a missing value.
\<close>

datatype pyfloat = Fin real | PosInf | NegInf | NaN

datatype error = KeyError | MergeError | ValueError | TypeError

fun isnan :: "pyfloat \<Rightarrow> bool" where
  "isnan NaN = True"
| "isnan _ = False"

fun fneg :: "pyfloat \<Rightarrow> pyfloat" where
  "fneg (Fin x) = Fin (- x)"
| "fneg PosInf = NegInf"
| "fneg NegInf = PosInf"
| "fneg NaN = NaN"

fun fadd :: "pyfloat \<Rightarrow> pyfloat \<Rightarrow> pyfloat" where
  "fadd (Fin x) (Fin y) = Fin (x + y)"
| "fadd NaN b = NaN"
| "fadd a NaN = NaN"
| "fadd PosInf NegInf = NaN"
| "fadd NegInf PosInf = NaN"
| "fadd PosInf b = PosInf"
| "fadd a PosInf = PosInf"
| "fadd NegInf b = NegInf"
| "fadd a NegInf = NegInf"

definition fsub :: "pyfloat \<Rightarrow> pyfloat \<Rightarrow> pyfloat" where
  "fsub a b = fadd a (fneg b)"

definition inf_times :: "pyfloat \<Rightarrow> real \<Rightarrow> pyfloat" where
  "inf_times i x = (if x = 0 then NaN else if 0 < x then i else fneg i)"

fun fmul :: "pyfloat \<Rightarrow> pyfloat \<Rightarrow> pyfloat" where
  "fmul (Fin x) (Fin y) = Fin (x * y)"
| "fmul NaN b = NaN"
| "fmul a NaN = NaN"
| "fmul (Fin x) b = inf_times b x"
| "fmul a (Fin y) = inf_times a y"
| "fmul PosInf b = b"
| "fmul NegInf b = fneg b"

text \<open>Comparisons: every comparison with NaN is false.\<close>

fun flt :: "pyfloat \<Rightarrow> pyfloat \<Rightarrow> bool" where
  "flt (Fin x) (Fin y) = (x < y)"
| "flt NaN b = False"
| "flt a NaN = False"
| "flt a NegInf = False"
| "flt PosInf b = False"
| "flt NegInf b = True"
| "flt a PosInf = True"

fun feq :: "pyfloat \<Rightarrow> pyfloat \<Rightarrow> bool" where
  "feq NaN b = False"
| "feq a NaN = False"
| "feq a b = (a = b)"

definition fle :: "pyfloat \<Rightarrow> pyfloat \<Rightarrow> bool" where
  "fle a b = (flt a b \<or> feq a b)"

definition fge :: "pyfloat \<Rightarrow> pyfloat \<Rightarrow> bool" where
  "fge a b = fle b a"

text \<open>Python's builtin \<open>min(a, b)\<close> returns \<open>a\<close> unless \<open>b < a\<close>; \<open>max\<close> likewise.\<close>

definition py_min :: "pyfloat \<Rightarrow> pyfloat \<Rightarrow> pyfloat" where
  "py_min a b = (if flt b a then b else a)"

definition py_max :: "pyfloat \<Rightarrow> pyfloat \<Rightarrow> pyfloat" where
  "py_max a b = (if flt a b then b else a)"

text \<open>\<open>numpy.min\<close> and \<open>numpy.max\<close> of a non-empty array: a NaN anywhere makes the result NaN.\<close>

definition np_min2 :: "pyfloat \<Rightarrow> pyfloat \<Rightarrow> pyfloat" where
  "np_min2 a b = (if isnan a \<or> isnan b then NaN else if flt b a then b else a)"

definition np_max2 :: "pyfloat \<Rightarrow> pyfloat \<Rightarrow> pyfloat" where
  "np_max2 a b = (if isnan a \<or> isnan b then NaN else if flt a b then b else a)"

fun np_min :: "pyfloat list \<Rightarrow> pyfloat" where
  "np_min [] = NaN"
| "np_min (x # xs) = foldl np_min2 x xs"

fun np_max :: "pyfloat list \<Rightarrow> pyfloat" where
  "np_max [] = NaN"
| "np_max (x # xs) = foldl np_max2 x xs"

section \<open>Tables\<close>

text \<open>
  A pandas DataFrame with numeric cells: the column labels in order, and the rows, each as
  long as the list of labels.  The row index is not modelled.
\<close>

record dataframe =
  columns :: "string list"
  rows :: "pyfloat list list"

definition empty_df :: dataframe where
  "empty_df = \<lparr>columns = [], rows = []\<rparr>"

text \<open>\<open>df.empty\<close>: no column or no row.\<close>

definition df_empty :: "dataframe \<Rightarrow> bool" where
  "df_empty d = (columns d = [] \<or> rows d = [])"

fun index_of :: "'a \<Rightarrow> 'a list \<Rightarrow> nat" where
  "index_of c [] = 0"
| "index_of c (x # xs) = (if x = c then 0 else Suc (index_of c xs))"

definition cell :: "dataframe \<Rightarrow> string \<Rightarrow> pyfloat list \<Rightarrow> pyfloat" where
  "cell d c r = (let i = index_of c (columns d) in if i < length r then r ! i else NaN)"

text \<open>\<open>df[c].values\<close> for a label that is present.\<close>

definition column_values :: "dataframe \<Rightarrow> string \<Rightarrow> pyfloat list" where
  "column_values d c = map (cell d c) (rows d)"

section \<open>Data model\<close>

datatype TimeMode = ABSOLUTE | RELATIVE | CUSTOM_OFFSET

datatype JoinStrategy = TIME_NEAREST | TIME_EXACT | ALTERNATIVE_KEY | APPEND_SEGMENT

datatype CompareMode = OVERLAY | CONCATENATE

record ChannelMetadata =
  original_name :: string
  display_name :: string
  unit :: string
  category :: string
  cm_description :: string

text \<open>A Python dict is an association list with distinct keys, in insertion order.\<close>

type_synonym ('k, 'v) dict = "('k \<times> 'v) list"

record FilterState =
  time_min :: "pyfloat option"
  time_max :: "pyfloat option"
  channel_filters :: "(string, pyfloat option \<times> pyfloat option) dict"
  text_search :: string
  category_filter :: "string list"
  unit_filter :: "string list"
  enabled :: bool

record DataFile =
  file_id :: string
  filepath :: string
  filename :: string
  delimiter :: string
  encoding :: string
  headers :: "string list"
  channel_metadata :: "(string, ChannelMetadata) dict"
  dataframe :: "dataframe option"
  time_column :: string
  time_mode :: TimeMode
  time_offset :: pyfloat
  time_scale :: pyfloat
  join_strategy :: "JoinStrategy option"
  join_key :: "string option"
  join_tolerance :: pyfloat

record Test =
  test_id :: string
  name :: string
  description :: string
  data_files :: "DataFile list"
  canonical_headers :: "string list"
  canonical_metadata :: "(string, ChannelMetadata) dict"
  primary_time_column :: string
  filter_state :: FilterState
  compare_time_offset :: pyfloat
  color :: string

section \<open>DataFile: the time pipeline\<close>

text \<open>\<open>DataFile.get_time_data\<close>; \<open>None\<close> is Python's \<open>None\<close>.\<close>

definition get_time_data :: "DataFile \<Rightarrow> pyfloat list option" where
  "get_time_data f =
     (case dataframe f of
        None \<Rightarrow> None
      | Some d \<Rightarrow>
          if time_column f \<notin> set (columns d) then None
          else
            let time_data = column_values d (time_column f);
                time_data1 =
                  (if time_mode f = RELATIVE
                   then (if length time_data > 0
                         then map (\<lambda>x. fsub x (time_data ! 0)) time_data
                         else time_data)
                   else time_data)
            in Some (map (\<lambda>x. fmul (fadd x (time_offset f)) (time_scale f)) time_data1))"

definition get_plot_time :: "DataFile \<Rightarrow> pyfloat list option" where
  "get_plot_time f = get_time_data f"

definition get_time_range :: "DataFile \<Rightarrow> pyfloat \<times> pyfloat" where
  "get_time_range f =
     (case get_time_data f of
        None \<Rightarrow> (Fin 0, Fin 0)
      | Some time_data \<Rightarrow>
          if length time_data = 0 then (Fin 0, Fin 0)
          else (np_min time_data, np_max time_data))"

text \<open>The pipeline as the specification words it: mode transform, then offset, then scale.\<close>

fun spec_mode_transform :: "TimeMode \<Rightarrow> pyfloat list \<Rightarrow> pyfloat list" where
  "spec_mode_transform ABSOLUTE ts = ts"
| "spec_mode_transform CUSTOM_OFFSET ts = ts"
| "spec_mode_transform RELATIVE [] = []"
| "spec_mode_transform RELATIVE (t0 # ts) = map (\<lambda>t. fsub t t0) (t0 # ts)"

definition spec_add_offset :: "pyfloat \<Rightarrow> pyfloat list \<Rightarrow> pyfloat list" where
  "spec_add_offset off ts = map (\<lambda>t. fadd t off) ts"

definition spec_scale :: "pyfloat \<Rightarrow> pyfloat list \<Rightarrow> pyfloat list" where
  "spec_scale sc ts = map (\<lambda>t. fmul t sc) ts"

definition spec_time_pipeline :: "TimeMode \<Rightarrow> pyfloat \<Rightarrow> pyfloat \<Rightarrow> pyfloat list \<Rightarrow> pyfloat list" where
  "spec_time_pipeline m off sc ts = spec_scale sc (spec_add_offset off (spec_mode_transform m ts))"

definition spec_time_range :: "pyfloat list \<Rightarrow> pyfloat \<times> pyfloat" where
  "spec_time_range ts = (if ts = [] then (Fin 0, Fin 0) else (np_min ts, np_max ts))"

section \<open>Properties of the time pipeline\<close>

lemma fadd_zero: "fadd x (Fin 0) = x"
  by (cases x) simp_all

lemma fmul_one: "fmul x (Fin 1) = x"
  by (cases x) (simp_all add: inf_times_def)

lemma spec_mode_transform_length: "length (spec_mode_transform m ts) = length ts"
  by (cases m; cases ts) simp_all

lemma get_time_data_pipeline:
  assumes "dataframe f = Some d" and "time_column f \<in> set (columns d)"
  shows "get_time_data f =
    Some (spec_time_pipeline (time_mode f) (time_offset f) (time_scale f)
            (column_values d (time_column f)))"
proof (cases "column_values d (time_column f)")
  case Nil
  with assms show ?thesis
    by (cases "time_mode f")
       (simp_all add: get_time_data_def spec_time_pipeline_def spec_scale_def spec_add_offset_def)
next
  case (Cons t0 ts)
  with assms show ?thesis
    by (cases "time_mode f")
       (simp_all add: get_time_data_def spec_time_pipeline_def spec_scale_def spec_add_offset_def
          comp_def)
qed

lemma spec_pipeline_identity: "spec_time_pipeline ABSOLUTE (Fin 0) (Fin 1) ts = ts"
  by (simp add: spec_time_pipeline_def spec_scale_def spec_add_offset_def fadd_zero fmul_one)

lemma spec_pipeline_empty: "spec_time_pipeline m off sc [] = []"
  by (cases m) (simp_all add: spec_time_pipeline_def spec_scale_def spec_add_offset_def)

lemma get_time_range_spec:
  "get_time_range f =
     (case get_time_data f of None \<Rightarrow> (Fin 0, Fin 0) | Some ts \<Rightarrow> spec_time_range ts)"
  by (simp add: get_time_range_def spec_time_range_def split: option.splits)

text \<open>On a series without NaN or infinities, \<open>np_min\<close> and \<open>np_max\<close> are the least and the
  greatest element.\<close>

lemma foldl_np_min2_Fin: "foldl np_min2 (Fin x) (map Fin xs) = Fin (Min (set (x # xs)))"
proof (induction xs arbitrary: x)
  case Nil
  show ?case by simp
next
  case (Cons y ys)
  have "foldl np_min2 (Fin x) (map Fin (y # ys)) = foldl np_min2 (Fin (min x y)) (map Fin ys)"
    by (simp add: np_min2_def min_def)
  also have "\<dots> = Fin (Min (set (min x y # ys)))"
    by (rule Cons.IH)
  also have "Min (set (min x y # ys)) = Min (set (x # y # ys))"
    by (cases "ys = []") (simp_all add: min.assoc)
  finally show ?case .
qed

lemma foldl_np_max2_Fin: "foldl np_max2 (Fin x) (map Fin xs) = Fin (Max (set (x # xs)))"
proof (induction xs arbitrary: x)
  case Nil
  show ?case by simp
next
  case (Cons y ys)
  have "foldl np_max2 (Fin x) (map Fin (y # ys)) = foldl np_max2 (Fin (max x y)) (map Fin ys)"
    by (simp add: np_max2_def max_def)
  also have "\<dots> = Fin (Max (set (max x y # ys)))"
    by (rule Cons.IH)
  also have "Max (set (max x y # ys)) = Max (set (x # y # ys))"
    by (cases "ys = []") (simp_all add: max.assoc)
  finally show ?case .
qed

lemma np_min_Fin: "xs \<noteq> [] \<Longrightarrow> np_min (map Fin xs) = Fin (Min (set xs))"
proof (cases xs)
  case Nil
  assume "xs \<noteq> []"
  with Nil show ?thesis by simp
next
  case (Cons a as)
  show ?thesis
    by (simp only: Cons list.map np_min.simps foldl_np_min2_Fin)
qed

lemma np_max_Fin: "xs \<noteq> [] \<Longrightarrow> np_max (map Fin xs) = Fin (Max (set xs))"
proof (cases xs)
  case Nil
  assume "xs \<noteq> []"
  with Nil show ?thesis by simp
next
  case (Cons a as)
  show ?thesis
    by (simp only: Cons list.map np_max.simps foldl_np_max2_Fin)
qed

definition example_files_frame :: dataframe where
  "example_files_frame =
     \<lparr>columns = [''Time'', ''Temp''],
      rows = [[Fin 100, Fin 20], [Fin 101, Fin 21], [Fin 103, Fin 22]]\<rparr>"

definition new_data_file :: DataFile where
  "new_data_file =
     \<lparr>file_id = ''f0'', filepath = ''.'', filename = [], delimiter = '','',
      encoding = ''utf-8'', headers = [], channel_metadata = [], dataframe = None,
      time_column = [], time_mode = RELATIVE, time_offset = Fin 0, time_scale = Fin 1,
      join_strategy = None, join_key = None, join_tolerance = Fin (1 / 1000)\<rparr>"

definition example_file :: DataFile where
  "example_file =
     new_data_file\<lparr>headers := [''Time'', ''Temp''], dataframe := Some example_files_frame,
       time_column := ''Time'', time_offset := Fin 5, time_scale := Fin 2\<rparr>"

text \<open>
  C4. For a DataFile with loaded data whose time column is one of its columns,
  \<open>get_time_data\<close> is the fixed pipeline of the specification (mode transform, then add
  \<open>time_offset\<close>, then multiply by \<open>time_scale\<close>) and \<open>get_time_range\<close> is the (min, max)
  of the transformed series, or (0, 0) when that series is empty; when the data is absent
  \<open>get_time_range\<close> is (0, 0).  With mode ABSOLUTE, offset 0 and scale 1 the pipeline leaves the
  values unchanged, and it maps the empty series to the empty series.  The minimum and the
  maximum are those of numpy: the least and the greatest value of a series of finite numbers,
  and NaN as soon as the series contains a NaN.
\<close>

theorem time_pipeline_refines_spec:
  "(\<forall>d. dataframe f = Some d \<and> time_column f \<in> set (columns d) \<longrightarrow>
      get_time_data f =
        Some (spec_time_pipeline (time_mode f) (time_offset f) (time_scale f)
                (column_values d (time_column f))) \<and>
      get_time_range f =
        spec_time_range (spec_time_pipeline (time_mode f) (time_offset f) (time_scale f)
                (column_values d (time_column f)))) \<and>
   (get_time_data f = None \<longrightarrow> get_time_range f = (Fin 0, Fin 0)) \<and>
   (get_time_data f = None \<longleftrightarrow>
      (case dataframe f of None \<Rightarrow> True | Some d \<Rightarrow> time_column f \<notin> set (columns d))) \<and>
   spec_time_pipeline ABSOLUTE (Fin 0) (Fin 1) ts = ts \<and>
   spec_time_pipeline m off sc [] = [] \<and>
   spec_time_range [] = (Fin 0, Fin 0) \<and>
   (xs \<noteq> [] \<longrightarrow> spec_time_range (map Fin xs) = (Fin (Min (set xs)), Fin (Max (set xs))))"
proof (intro conjI allI impI)
  fix d
  assume a: "dataframe f = Some d \<and> time_column f \<in> set (columns d)"
  then show g: "get_time_data f =
        Some (spec_time_pipeline (time_mode f) (time_offset f) (time_scale f)
                (column_values d (time_column f)))"
    by (simp add: get_time_data_pipeline)
  show "get_time_range f =
        spec_time_range (spec_time_pipeline (time_mode f) (time_offset f) (time_scale f)
                (column_values d (time_column f)))"
    by (simp add: get_time_range_spec g)
next
  assume "get_time_data f = None"
  then show "get_time_range f = (Fin 0, Fin 0)"
    by (simp add: get_time_range_def)
next
  show "get_time_data f = None \<longleftrightarrow>
      (case dataframe f of None \<Rightarrow> True | Some d \<Rightarrow> time_column f \<notin> set (columns d))"
    by (simp add: get_time_data_def Let_def split: option.splits)
next
  show "spec_time_pipeline ABSOLUTE (Fin 0) (Fin 1) ts = ts"
    by (rule spec_pipeline_identity)
  show "spec_time_pipeline m off sc [] = []"
    by (rule spec_pipeline_empty)
  show "spec_time_range [] = (Fin 0, Fin 0)"
    by (simp add: spec_time_range_def)
next
  assume "xs \<noteq> []"
  then show "spec_time_range (map Fin xs) = (Fin (Min (set xs)), Fin (Max (set xs)))"
    by (simp add: spec_time_range_def np_min_Fin np_max_Fin)
qed

theorem time_pipeline_refines_spec_witness:
  "dataframe example_file = Some example_files_frame \<and>
   time_column example_file \<in> set (columns example_files_frame) \<and>
   get_time_data example_file = Some [Fin 10, Fin 12, Fin 16] \<and>
   get_time_range example_file = (Fin 10, Fin 16)"
proof -
  have h: "dataframe example_file = Some example_files_frame \<and>
           time_column example_file \<in> set (columns example_files_frame)"
    by (simp add: example_file_def example_files_frame_def)
  have v: "column_values example_files_frame (time_column example_file) =
             [Fin 100, Fin 101, Fin 103]"
    by (simp add: example_file_def example_files_frame_def column_values_def cell_def)
  have p: "spec_time_pipeline (time_mode example_file) (time_offset example_file)
             (time_scale example_file) [Fin 100, Fin 101, Fin 103] = [Fin 10, Fin 12, Fin 16]"
    by (simp add: example_file_def new_data_file_def spec_time_pipeline_def spec_scale_def
          spec_add_offset_def fsub_def)
  have r: "spec_time_range [Fin 10, Fin 12, Fin 16] = (Fin 10, Fin 16)"
    by (simp add: spec_time_range_def np_min2_def np_max2_def)
  from time_pipeline_refines_spec [of example_file] h
  have "get_time_data example_file =
        Some (spec_time_pipeline (time_mode example_file) (time_offset example_file)
                (time_scale example_file)
                (column_values example_files_frame (time_column example_file))) \<and>
      get_time_range example_file =
        spec_time_range (spec_time_pipeline (time_mode example_file) (time_offset example_file)
                (time_scale example_file)
                (column_values example_files_frame (time_column example_file)))"
    by blast
  with h show ?thesis
    by (simp only: v p r)
qed

section \<open>FilterState: applying the filter to a table\<close>

text \<open>A boolean Series is a list with one entry per row.\<close>

definition mask_and :: "bool list \<Rightarrow> bool list \<Rightarrow> bool list" where
  "mask_and m n = map2 (\<and>) m n"

definition series_ge :: "pyfloat list \<Rightarrow> pyfloat \<Rightarrow> bool list" where
  "series_ge xs v = map (\<lambda>x. fge x v) xs"

definition series_le :: "pyfloat list \<Rightarrow> pyfloat \<Rightarrow> bool list" where
  "series_le xs v = map (\<lambda>x. fle x v) xs"

text \<open>The two bounds applied to one column, as both the time block and each round of the
  channel loop of \<open>apply_to_dataframe\<close> do.\<close>

definition bounds_mask ::
  "dataframe \<Rightarrow> string \<Rightarrow> pyfloat option \<Rightarrow> pyfloat option \<Rightarrow> bool list \<Rightarrow> bool list" where
  "bounds_mask df c min_val max_val msk =
     (if c \<in> set (columns df)
      then
        (let mask1 = (case min_val of None \<Rightarrow> msk
                      | Some v \<Rightarrow> mask_and msk (series_ge (column_values df c) v))
         in (case max_val of None \<Rightarrow> mask1
             | Some v \<Rightarrow> mask_and mask1 (series_le (column_values df c) v)))
      else msk)"

fun channel_filter_loop ::
  "dataframe \<Rightarrow> (string, pyfloat option \<times> pyfloat option) dict \<Rightarrow> bool list \<Rightarrow> bool list" where
  "channel_filter_loop df [] msk = msk"
| "channel_filter_loop df ((channel, (min_val, max_val)) # rest) msk =
     channel_filter_loop df rest (bounds_mask df channel min_val max_val msk)"

text \<open>Indexing a table with a boolean Series keeps the rows whose entry is true.\<close>

definition boolean_index :: "dataframe \<Rightarrow> bool list \<Rightarrow> dataframe" where
  "boolean_index df msk = df\<lparr>rows := map fst (filter snd (zip (rows df) msk))\<rparr>"

definition apply_to_dataframe :: "FilterState \<Rightarrow> dataframe \<Rightarrow> string \<Rightarrow> dataframe" where
  "apply_to_dataframe fs df time_col =
     (if \<not> enabled fs \<or> df_empty df then df
      else
        let msk = replicate (length (rows df)) True;
            mask1 = bounds_mask df time_col (time_min fs) (time_max fs) msk;
            mask2 = channel_filter_loop df (channel_filters fs) mask1
        in boolean_index df mask2)"

text \<open>The row predicate as the specification words it.\<close>

definition spec_lower_ok :: "pyfloat option \<Rightarrow> pyfloat \<Rightarrow> bool" where
  "spec_lower_ok bound v = (case bound of None \<Rightarrow> True | Some b \<Rightarrow> fge v b)"

definition spec_upper_ok :: "pyfloat option \<Rightarrow> pyfloat \<Rightarrow> bool" where
  "spec_upper_ok bound v = (case bound of None \<Rightarrow> True | Some b \<Rightarrow> fle v b)"

definition spec_column_ok ::
  "dataframe \<Rightarrow> pyfloat list \<Rightarrow> string \<Rightarrow> pyfloat option \<Rightarrow> pyfloat option \<Rightarrow> bool" where
  "spec_column_ok df r c lo hi =
     (c \<in> set (columns df) \<longrightarrow> spec_lower_ok lo (cell df c r) \<and> spec_upper_ok hi (cell df c r))"

definition spec_row_passes :: "FilterState \<Rightarrow> dataframe \<Rightarrow> string \<Rightarrow> pyfloat list \<Rightarrow> bool" where
  "spec_row_passes fs df time_col r =
     (spec_column_ok df r time_col (time_min fs) (time_max fs) \<and>
      list_all (\<lambda>(ch, (lo, hi)). spec_column_ok df r ch lo hi) (channel_filters fs))"

lemma boolean_index_map: "map fst (filter snd (zip xs (map P xs))) = filter P xs"
  by (induction xs) simp_all

lemma mask_and_map: "mask_and (map P xs) (map Q xs) = map (\<lambda>x. P x \<and> Q x) xs"
  by (induction xs) (simp_all add: mask_and_def)

lemma bounds_mask_map:
  "bounds_mask df c lo hi (map P (rows df)) =
     map (\<lambda>r. P r \<and> spec_column_ok df r c lo hi) (rows df)"
  by (cases lo; cases hi)
     (simp_all add: bounds_mask_def series_ge_def series_le_def column_values_def
        spec_column_ok_def spec_lower_ok_def spec_upper_ok_def mask_and_map conj_assoc)

lemma channel_filter_loop_map:
  "channel_filter_loop df cf (map P (rows df)) =
     map (\<lambda>r. P r \<and> list_all (\<lambda>(ch, (lo, hi)). spec_column_ok df r ch lo hi) cf) (rows df)"
proof (induction cf arbitrary: P)
  case Nil
  show ?case by simp
next
  case (Cons e cf)
  obtain ch lo hi where e: "e = (ch, (lo, hi))"
    by (cases e) auto
  show ?case
    by (simp add: e bounds_mask_map Cons.IH conj_assoc)
qed

lemma replicate_True_map: "replicate (length xs) True = map (\<lambda>_. True) xs"
  by (induction xs) simp_all

lemma apply_to_dataframe_rows:
  assumes "enabled fs" and "\<not> df_empty df"
  shows "apply_to_dataframe fs df tc = df\<lparr>rows := filter (spec_row_passes fs df tc) (rows df)\<rparr>"
proof -
  have "channel_filter_loop df (channel_filters fs)
          (bounds_mask df tc (time_min fs) (time_max fs) (replicate (length (rows df)) True)) =
        map (spec_row_passes fs df tc) (rows df)"
    by (simp add: replicate_True_map bounds_mask_map channel_filter_loop_map
          spec_row_passes_def)
  with assms show ?thesis
    by (simp add: apply_to_dataframe_def boolean_index_def boolean_index_map)
qed

definition new_filter_state :: FilterState where
  "new_filter_state =
     \<lparr>time_min = None, time_max = None, channel_filters = [], text_search = [],
      category_filter = [], unit_filter = [], enabled = True\<rparr>"

definition example_filter :: FilterState where
  "example_filter =
     new_filter_state\<lparr>time_min := Some (Fin 1),
       channel_filters := [(''Temp'', (None, Some (Fin 21))), (''Flow'', (Some (Fin 100), None))]\<rparr>"

definition example_merged :: dataframe where
  "example_merged =
     \<lparr>columns = [''_plot_time_'', ''Temp''],
      rows = [[Fin 0, Fin 20], [Fin 1, Fin 21], [Fin 2, Fin 22], [Fin 3, NaN]]\<rparr>"

text \<open>
  C6. \<open>FilterState.apply_to_dataframe\<close>: a disabled filter or an empty table gives the input
  back unchanged, whatever the other fields are.  Otherwise the columns are kept and the rows
  are exactly those that satisfy the conjunction of the time bounds (each only if set) and of
  the bounds of every declared channel filter whose channel is a column of the table (a
  filter on an absent column constrains nothing, and so do the time bounds when the time
  column is absent), in their original order.
\<close>

theorem filter_apply_refines_spec:
  "(\<not> enabled fs \<or> df_empty df \<longrightarrow> apply_to_dataframe fs df tc = df) \<and>
   (enabled fs \<and> \<not> df_empty df \<longrightarrow>
      columns (apply_to_dataframe fs df tc) = columns df \<and>
      rows (apply_to_dataframe fs df tc) = filter (spec_row_passes fs df tc) (rows df))"
proof (intro conjI impI)
  assume "\<not> enabled fs \<or> df_empty df"
  then show "apply_to_dataframe fs df tc = df"
    by (auto simp: apply_to_dataframe_def)
next
  assume a: "enabled fs \<and> \<not> df_empty df"
  then show "columns (apply_to_dataframe fs df tc) = columns df"
    by (simp add: apply_to_dataframe_rows)
  from a show "rows (apply_to_dataframe fs df tc) = filter (spec_row_passes fs df tc) (rows df)"
    by (simp add: apply_to_dataframe_rows)
qed

theorem filter_apply_refines_spec_witness:
  "enabled example_filter \<and> \<not> df_empty example_merged \<and>
   apply_to_dataframe example_filter example_merged ''_plot_time_'' =
     \<lparr>columns = [''_plot_time_'', ''Temp''], rows = [[Fin 1, Fin 21]]\<rparr> \<and>
   apply_to_dataframe (example_filter\<lparr>enabled := False\<rparr>) example_merged ''_plot_time_'' =
     example_merged"
proof -
  have h: "enabled example_filter \<and> \<not> df_empty example_merged"
    by (simp add: example_filter_def new_filter_state_def example_merged_def df_empty_def)
  have e: "filter (spec_row_passes example_filter example_merged ''_plot_time_'')
             (rows example_merged) = [[Fin 1, Fin 21]]"
    by (simp add: example_filter_def new_filter_state_def example_merged_def
          spec_row_passes_def spec_column_ok_def spec_lower_ok_def spec_upper_ok_def
          cell_def fge_def fle_def)
  from filter_apply_refines_spec [of example_filter example_merged "''_plot_time_''"] h
  have "columns (apply_to_dataframe example_filter example_merged ''_plot_time_'') =
          columns example_merged \<and>
        rows (apply_to_dataframe example_filter example_merged ''_plot_time_'') =
          filter (spec_row_passes example_filter example_merged ''_plot_time_'')
            (rows example_merged)"
    by blast
  then have "columns (apply_to_dataframe example_filter example_merged ''_plot_time_'') =
          [''_plot_time_'', ''Temp'']"
    and "rows (apply_to_dataframe example_filter example_merged ''_plot_time_'') =
          [[Fin 1, Fin 21]]"
    by (simp_all only: e) (simp add: example_merged_def)
  then have 1: "apply_to_dataframe example_filter example_merged ''_plot_time_'' =
     \<lparr>columns = [''_plot_time_'', ''Temp''], rows = [[Fin 1, Fin 21]]\<rparr>"
    by (intro dataframe.equality) simp_all
  from filter_apply_refines_spec
         [of "example_filter\<lparr>enabled := False\<rparr>" example_merged "''_plot_time_''"]
  have 2: "apply_to_dataframe (example_filter\<lparr>enabled := False\<rparr>) example_merged
             ''_plot_time_'' = example_merged"
    by simp
  from h 1 2 show ?thesis by blast
qed

section \<open>Test: membership and the canonical headers\<close>

text \<open>
  \<open>_update_canonical_headers\<close> collects the headers in a Python set and then iterates over
  that set.  The order of that iteration is not fixed by the language; the model takes it as
  a parameter \<open>so\<close>, which maps the sequence of insertions to the order in which the
  resulting set is enumerated.
\<close>

definition set_iteration :: "(string list \<Rightarrow> string list) \<Rightarrow> bool" where
  "set_iteration so = (\<forall>xs. distinct (so xs) \<and> set (so xs) = set xs)"

definition append_if_new :: "string list \<Rightarrow> string \<Rightarrow> string list" where
  "append_if_new new_headers h = (if h \<notin> set new_headers then new_headers @ [h] else new_headers)"

definition dict_setdefault :: "('k, 'v) dict \<Rightarrow> 'k \<times> 'v \<Rightarrow> ('k, 'v) dict" where
  "dict_setdefault d kv = (if fst kv \<in> set (map fst d) then d else d @ [kv])"

definition update_canonical_headers :: "(string list \<Rightarrow> string list) \<Rightarrow> Test \<Rightarrow> Test" where
  "update_canonical_headers so t =
     (let inserted = concat (map headers (data_files t));
          new_headers = filter (\<lambda>h. h \<in> set inserted) (canonical_headers t);
          new_headers1 = foldl append_if_new new_headers (so inserted);
          metadata = foldl dict_setdefault (canonical_metadata t)
                       (concat (map channel_metadata (data_files t)))
      in t\<lparr>canonical_headers := new_headers1, canonical_metadata := metadata\<rparr>)"

definition add_data_file :: "(string list \<Rightarrow> string list) \<Rightarrow> Test \<Rightarrow> DataFile \<Rightarrow> Test" where
  "add_data_file so t data_file =
     update_canonical_headers so (t\<lparr>data_files := data_files t @ [data_file]\<rparr>)"

text \<open>The list without its first file of the given id, if there is one.\<close>

fun pop_file :: "string \<Rightarrow> DataFile list \<Rightarrow> DataFile list option" where
  "pop_file fid [] = None"
| "pop_file fid (df # dfs) =
     (if file_id df = fid then Some dfs else map_option ((#) df) (pop_file fid dfs))"

definition remove_data_file ::
  "(string list \<Rightarrow> string list) \<Rightarrow> Test \<Rightarrow> string \<Rightarrow> Test \<times> bool" where
  "remove_data_file so t fid =
     (case pop_file fid (data_files t) of
        None \<Rightarrow> (t, False)
      | Some dfs \<Rightarrow> (update_canonical_headers so (t\<lparr>data_files := dfs\<rparr>), True))"

datatype membership_op = AddFile DataFile | RemoveFile string

fun apply_membership_op ::
  "(string list \<Rightarrow> string list) \<Rightarrow> Test \<Rightarrow> membership_op \<Rightarrow> Test" where
  "apply_membership_op so t (AddFile f) = add_data_file so t f"
| "apply_membership_op so t (RemoveFile fid) = fst (remove_data_file so t fid)"

text \<open>The headers of the member files, and their first-seen order.\<close>

definition member_headers :: "Test \<Rightarrow> string list" where
  "member_headers t = concat (map headers (data_files t))"

definition spec_first_seen :: "Test \<Rightarrow> string list" where
  "spec_first_seen t = rev (remdups (rev (member_headers t)))"

definition canonical_inv :: "Test \<Rightarrow> bool" where
  "canonical_inv t =
     (distinct (canonical_headers t) \<and> set (canonical_headers t) = set (member_headers t))"

lemma foldl_append_if_new:
  "distinct xs \<Longrightarrow> foldl append_if_new acc xs = acc @ filter (\<lambda>h. h \<notin> set acc) xs"
proof (induction xs arbitrary: acc)
  case Nil
  show ?case by simp
next
  case (Cons x xs)
  then have d: "distinct xs" and nx: "x \<notin> set xs"
    by simp_all
  show ?case
  proof (cases "x \<in> set acc")
    case True
    then have "append_if_new acc x = acc"
      by (simp add: append_if_new_def)
    with True show ?thesis
      by (simp add: Cons.IH [OF d])
  next
    case False
    then have "append_if_new acc x = acc @ [x]"
      by (simp add: append_if_new_def)
    moreover have "filter (\<lambda>h. h \<notin> set (acc @ [x])) xs = filter (\<lambda>h. h \<notin> set acc) xs"
      using nx by (intro filter_cong) auto
    ultimately show ?thesis
      using False by (simp add: Cons.IH [OF d])
  qed
qed

lemma update_canonical_headers_eq:
  assumes "set_iteration so"
  shows "canonical_headers (update_canonical_headers so t) =
     filter (\<lambda>h. h \<in> set (member_headers t)) (canonical_headers t) @
     filter (\<lambda>h. h \<notin> set (canonical_headers t)) (so (member_headers t))"
proof -
  let ?ins = "member_headers t"
  have d: "distinct (so ?ins)" and s: "set (so ?ins) = set ?ins"
    using assms by (simp_all add: set_iteration_def)
  have "filter (\<lambda>h. h \<notin> set (filter (\<lambda>h. h \<in> set ?ins) (canonical_headers t))) (so ?ins) =
        filter (\<lambda>h. h \<notin> set (canonical_headers t)) (so ?ins)"
    using s by (intro filter_cong) auto
  then show ?thesis
    by (simp add: update_canonical_headers_def Let_def member_headers_def [symmetric]
          foldl_append_if_new [OF d])
qed

lemma update_canonical_headers_files [simp]:
  "data_files (update_canonical_headers so t) = data_files t"
  by (simp add: update_canonical_headers_def Let_def)

lemma update_canonical_headers_members [simp]:
  "member_headers (update_canonical_headers so t) = member_headers t"
  by (simp add: member_headers_def)

lemma update_canonical_headers_set:
  assumes "set_iteration so"
  shows "set (canonical_headers (update_canonical_headers so t)) = set (member_headers t)"
  using assms by (auto simp: update_canonical_headers_eq set_iteration_def)

lemma update_canonical_headers_distinct:
  assumes "set_iteration so" and "distinct (canonical_headers t)"
  shows "distinct (canonical_headers (update_canonical_headers so t))"
  using assms by (auto simp: update_canonical_headers_eq set_iteration_def)

lemma update_canonical_inv:
  "set_iteration so \<Longrightarrow> distinct (canonical_headers t) \<Longrightarrow>
     canonical_inv (update_canonical_headers so t)"
  by (simp add: canonical_inv_def update_canonical_headers_set update_canonical_headers_distinct)

lemma apply_membership_op_inv:
  assumes "set_iteration so" and "canonical_inv t"
  shows "canonical_inv (apply_membership_op so t opn)"
proof (cases opn)
  case (AddFile f)
  from assms(2) have "distinct (canonical_headers (t\<lparr>data_files := data_files t @ [f]\<rparr>))"
    by (simp add: canonical_inv_def)
  with assms(1) show ?thesis
    by (simp only: AddFile apply_membership_op.simps add_data_file_def update_canonical_inv)
next
  case (RemoveFile fid)
  show ?thesis
  proof (cases "pop_file fid (data_files t)")
    case None
    with assms(2) show ?thesis
      by (simp add: RemoveFile remove_data_file_def)
  next
    case (Some dfs)
    from assms(2) have "distinct (canonical_headers (t\<lparr>data_files := dfs\<rparr>))"
      by (simp add: canonical_inv_def)
    with assms(1) have "canonical_inv (update_canonical_headers so (t\<lparr>data_files := dfs\<rparr>))"
      by (rule update_canonical_inv)
    then show ?thesis
      by (simp add: RemoveFile remove_data_file_def Some)
  qed
qed

lemma foldl_membership_inv:
  "set_iteration so \<Longrightarrow> canonical_inv t \<Longrightarrow> canonical_inv (foldl (apply_membership_op so) t ops)"
  by (induction ops arbitrary: t) (simp_all add: apply_membership_op_inv)

lemma pop_file_headers:
  "pop_file fid fs = Some dfs \<Longrightarrow> set (concat (map headers dfs)) \<subseteq> set (concat (map headers fs))"
proof (induction fs arbitrary: dfs)
  case Nil
  then show ?case by simp
next
  case (Cons g gs)
  show ?case
  proof (cases "file_id g = fid")
    case True
    with Cons.prems show ?thesis by auto
  next
    case False
    with Cons.prems obtain ds where p: "pop_file fid gs = Some ds" and e: "dfs = g # ds"
      by auto
    from Cons.IH [OF p] show ?thesis
      by (auto simp: e)
  qed
qed

lemma add_data_file_headers:
  assumes "set_iteration so" and "canonical_inv t"
  shows "canonical_headers (add_data_file so t f) =
     canonical_headers t @
     filter (\<lambda>h. h \<notin> set (canonical_headers t)) (so (member_headers t @ headers f))"
proof -
  let ?t = "t\<lparr>data_files := data_files t @ [f]\<rparr>"
  have m: "member_headers ?t = member_headers t @ headers f"
    by (simp add: member_headers_def)
  have "filter (\<lambda>h. h \<in> set (member_headers ?t)) (canonical_headers t) = canonical_headers t"
    using assms(2) by (simp add: canonical_inv_def m)
  with update_canonical_headers_eq [OF assms(1), of ?t] show ?thesis
    by (simp add: add_data_file_def m)
qed

lemma remove_data_file_headers:
  assumes "set_iteration so" and "canonical_inv t"
  shows "canonical_headers (fst (remove_data_file so t fid)) =
     filter (\<lambda>h. h \<in> set (member_headers (fst (remove_data_file so t fid))))
       (canonical_headers t)"
proof (cases "pop_file fid (data_files t)")
  case None
  with assms(2) show ?thesis
    by (simp add: remove_data_file_def canonical_inv_def)
next
  case (Some dfs)
  let ?t = "t\<lparr>data_files := dfs\<rparr>"
  have m: "member_headers ?t = concat (map headers dfs)"
    by (simp add: member_headers_def)
  have sub: "set (so (member_headers ?t)) \<subseteq> set (canonical_headers t)"
    using pop_file_headers [OF Some] assms
    by (simp add: m set_iteration_def canonical_inv_def member_headers_def)
  have "filter (\<lambda>h. h \<notin> set (canonical_headers t)) (so (member_headers ?t)) = []"
    using sub by (auto simp: filter_empty_conv)
  with update_canonical_headers_eq [OF assms(1), of ?t] show ?thesis
    by (simp add: remove_data_file_def Some)
qed

definition new_test :: Test where
  "new_test =
     \<lparr>test_id = ''t0'', name = ''New Test'', description = [], data_files = [],
      canonical_headers = [], canonical_metadata = [], primary_time_column = [],
      filter_state = new_filter_state, compare_time_offset = Fin 0, color = ''#1f77b4''\<rparr>"

definition file_time_only :: DataFile where
  "file_time_only = new_data_file\<lparr>file_id := ''fa'', headers := [''Time'']\<rparr>"

definition file_temp_time :: DataFile where
  "file_temp_time = new_data_file\<lparr>file_id := ''fb'', headers := [''Temp'', ''Time'']\<rparr>"

definition test_after_remove :: Test where
  "test_after_remove =
     fst (remove_data_file remdups
            (add_data_file remdups (add_data_file remdups new_test file_time_only) file_temp_time)
            ''fa'')"

text \<open>
  C3 as stated fails in its last part.  Add a file with the header Time, add a second file
  with the headers Temp, Time, then remove the first file: every step adds at most one new
  header, so the result does not depend on the iteration order of the set.  The canonical
  headers are then Time, Temp, while the only member file lists Temp before Time.
\<close>

theorem canonical_order_counterexample:
  "data_files test_after_remove = [file_temp_time] \<and>
   canonical_headers test_after_remove = [''Time'', ''Temp''] \<and>
   spec_first_seen test_after_remove = [''Temp'', ''Time''] \<and>
   canonical_headers test_after_remove \<noteq> spec_first_seen test_after_remove"
  by (simp add: test_after_remove_def remove_data_file_def add_data_file_def
        update_canonical_headers_def new_test_def file_time_only_def file_temp_time_def
        new_data_file_def spec_first_seen_def member_headers_def append_if_new_def Let_def)

text \<open>
  C3, amended.  Let the canonical headers of a Test be duplicate-free and equal, as a set, to
  the union of the headers of its files (as they are for an empty Test).  Then after every
  sequence of \<open>add_data_file\<close> and \<open>remove_data_file\<close> operations they are again duplicate-free
  and exactly that union for the files then owned.  As to the order: \<open>add_data_file\<close> keeps the
  previous canonical headers in place and appends the headers that are new, in the order in
  which Python enumerates the set of all headers; \<open>remove_data_file\<close> keeps the previous order
  and deletes the headers that no remaining file has.
\<close>

theorem canonical_headers_union:
  assumes "set_iteration so" and "canonical_inv t"
  shows "canonical_inv (foldl (apply_membership_op so) t ops) \<and>
    canonical_headers (add_data_file so t f) =
      canonical_headers t @
      filter (\<lambda>h. h \<notin> set (canonical_headers t)) (so (member_headers t @ headers f)) \<and>
    canonical_headers (fst (remove_data_file so t fid)) =
      filter (\<lambda>h. h \<in> set (member_headers (fst (remove_data_file so t fid))))
        (canonical_headers t)"
  using assms
  by (intro conjI foldl_membership_inv add_data_file_headers remove_data_file_headers)

theorem canonical_headers_union_witness:
  "set_iteration remdups \<and> canonical_inv new_test \<and>
   canonical_inv (foldl (apply_membership_op remdups) new_test
      [AddFile file_time_only, AddFile file_temp_time, RemoveFile ''fa'']) \<and>
   canonical_headers (add_data_file remdups new_test file_temp_time) = [''Temp'', ''Time'']"
proof -
  have s: "set_iteration remdups"
    by (simp add: set_iteration_def)
  have i: "canonical_inv new_test"
    by (simp add: canonical_inv_def new_test_def member_headers_def)
  have e: "canonical_headers new_test @
      filter (\<lambda>h. h \<notin> set (canonical_headers new_test))
        (remdups (member_headers new_test @ headers file_temp_time)) = [''Temp'', ''Time'']"
    by (simp add: new_test_def member_headers_def file_temp_time_def)
  from canonical_headers_union [OF s i,
         of "[AddFile file_time_only, AddFile file_temp_time, RemoveFile ''fa'']" file_temp_time]
    e s i
  show ?thesis
    by (simp only:)
qed

section \<open>FilterManager: the channel picker\<close>

text \<open>\<open>str.lower\<close> on ASCII letters, and Python's substring test \<open>a in b\<close>.\<close>

definition lower_char :: "char \<Rightarrow> char" where
  "lower_char c =
     (case map_of (zip ''ABCDEFGHIJKLMNOPQRSTUVWXYZ'' ''abcdefghijklmnopqrstuvwxyz'') c of
        None \<Rightarrow> c
      | Some l \<Rightarrow> l)"

definition lower :: "string \<Rightarrow> string" where
  "lower s = map lower_char s"

fun starts_with :: "string \<Rightarrow> string \<Rightarrow> bool" where
  "starts_with [] s = True"
| "starts_with (p # ps) [] = False"
| "starts_with (p # ps) (c # cs) = (p = c \<and> starts_with ps cs)"

fun contains :: "string \<Rightarrow> string \<Rightarrow> bool" where
  "contains s [] = (s = [])"
| "contains s (c # cs) = (starts_with s (c # cs) \<or> contains s cs)"

text \<open>The body of the loop of \<open>get_filtered_channels\<close>: true when the channel reaches
  \<open>result.append(ch)\<close>, false when one of the three \<open>continue\<close> statements is taken.\<close>

definition channel_appended :: "Test \<Rightarrow> string \<Rightarrow> bool" where
  "channel_appended test ch =
     (let fs = filter_state test; meta = map_of (canonical_metadata test) ch in
      if text_search fs \<noteq> [] \<and> \<not> contains (lower (text_search fs)) (lower ch) \<and>
         (case meta of None \<Rightarrow> False
          | Some m \<Rightarrow> \<not> contains (lower (text_search fs)) (lower (display_name m)))
      then False
      else if category_filter fs \<noteq> [] \<and>
         (case meta of None \<Rightarrow> False | Some m \<Rightarrow> category m \<notin> set (category_filter fs))
      then False
      else if unit_filter fs \<noteq> [] \<and>
         (case meta of None \<Rightarrow> False | Some m \<Rightarrow> unit m \<notin> set (unit_filter fs))
      then False
      else True)"

definition get_filtered_channels ::
  "(string, Test) dict \<Rightarrow> string \<Rightarrow> string list \<Rightarrow> string list" where
  "get_filtered_channels tests tid all_channels =
     (case map_of tests tid of
        None \<Rightarrow> all_channels
      | Some test \<Rightarrow> filter (channel_appended test) all_channels)"

text \<open>The three predicates as the specification words them.\<close>

definition spec_text_ok :: "Test \<Rightarrow> string \<Rightarrow> bool" where
  "spec_text_ok test ch =
     (text_search (filter_state test) \<noteq> [] \<longrightarrow>
        contains (lower (text_search (filter_state test))) (lower ch) \<or>
        (case map_of (canonical_metadata test) ch of None \<Rightarrow> False
         | Some m \<Rightarrow> contains (lower (text_search (filter_state test))) (lower (display_name m))))"

definition spec_category_ok :: "Test \<Rightarrow> string \<Rightarrow> bool" where
  "spec_category_ok test ch =
     (category_filter (filter_state test) \<noteq> [] \<longrightarrow>
        (case map_of (canonical_metadata test) ch of None \<Rightarrow> False
         | Some m \<Rightarrow> category m \<in> set (category_filter (filter_state test))))"

definition spec_unit_ok :: "Test \<Rightarrow> string \<Rightarrow> bool" where
  "spec_unit_ok test ch =
     (unit_filter (filter_state test) \<noteq> [] \<longrightarrow>
        (case map_of (canonical_metadata test) ch of None \<Rightarrow> False
         | Some m \<Rightarrow> unit m \<in> set (unit_filter (filter_state test))))"

definition spec_channel_passes :: "Test \<Rightarrow> string \<Rightarrow> bool" where
  "spec_channel_passes test ch =
     (spec_text_ok test ch \<and> spec_category_ok test ch \<and> spec_unit_ok test ch)"

lemma contains_iff: "contains s t \<longleftrightarrow> (\<exists>ps ss. t = ps @ s @ ss)"
proof (induction t)
  case Nil
  show ?case by auto
next
  case (Cons c cs)
  have sw: "starts_with s u \<longleftrightarrow> (\<exists>ss. u = s @ ss)" for u
    by (induction s u rule: starts_with.induct) auto
  show ?case
  proof
    assume "contains s (c # cs)"
    then consider "starts_with s (c # cs)" | "contains s cs"
      by auto
    then show "\<exists>ps ss. c # cs = ps @ s @ ss"
    proof cases
      case 1
      then obtain ss where "c # cs = s @ ss"
        using sw by blast
      then have "c # cs = [] @ s @ ss" by simp
      then show ?thesis by blast
    next
      case 2
      then obtain ps ss where "cs = ps @ s @ ss"
        using Cons.IH by blast
      then have "c # cs = (c # ps) @ s @ ss" by simp
      then show ?thesis by blast
    qed
  next
    assume "\<exists>ps ss. c # cs = ps @ s @ ss"
    then obtain ps ss where e: "c # cs = ps @ s @ ss"
      by blast
    show "contains s (c # cs)"
    proof (cases ps)
      case Nil
      with e have "starts_with s (c # cs)"
        using sw by auto
      then show ?thesis by simp
    next
      case (Cons p ps')
      with e have "cs = ps' @ s @ ss" by simp
      then have "contains s cs"
        using Cons.IH by blast
      then show ?thesis by simp
    qed
  qed
qed

lemma channel_appended_iff:
  "channel_appended test ch \<longleftrightarrow>
     (map_of (canonical_metadata test) ch = None \<or> spec_channel_passes test ch)"
  by (cases "map_of (canonical_metadata test) ch")
     (auto simp: channel_appended_def spec_channel_passes_def spec_text_ok_def
        spec_category_ok_def spec_unit_ok_def Let_def)

definition search_test :: Test where
  "search_test = new_test\<lparr>filter_state := new_filter_state\<lparr>text_search := ''temp''\<rparr>\<rparr>"

definition picker_test :: Test where
  "picker_test =
     new_test\<lparr>canonical_metadata :=
        [(''Temp_C'', \<lparr>original_name = ''Temp_C'', display_name = ''Temp'', unit = ''C'',
                        category = ''Temperature'', cm_description = []\<rparr>),
         (''Press_PSI'', \<lparr>original_name = ''Press_PSI'', display_name = ''Press'', unit = ''psi'',
                        category = ''Pressure'', cm_description = []\<rparr>)],
       filter_state := new_filter_state\<lparr>text_search := ''TEMP'',
                         category_filter := [''Temperature'']\<rparr>\<rparr>"

text \<open>
  C9 as stated fails for a channel that has no entry in the canonical metadata: with the
  search text temp and no metadata, the channel Voltage is returned although temp is a
  substring neither of its header nor of a display name.
\<close>

theorem filtered_channels_counterexample:
  "get_filtered_channels [(''t0'', search_test)] ''t0'' [''Voltage''] = [''Voltage''] \<and>
   \<not> spec_channel_passes search_test ''Voltage''"
  by (simp add: get_filtered_channels_def channel_appended_def spec_channel_passes_def
        spec_text_ok_def search_test_def new_test_def new_filter_state_def lower_def
        lower_char_def Let_def)

text \<open>
  C9, amended.  For a registered Test, \<open>get_filtered_channels\<close> returns, in their order, exactly
  the channels that either have no entry in the Test's canonical metadata (these are never
  filtered out) or pass all three predicates: a non-empty search text is a case-insensitive
  substring of the raw header or of the display name, a non-empty category list contains the
  channel's category, and a non-empty unit list contains its unit; an empty search text or
  list imposes no constraint.
\<close>

theorem filtered_channels_with_metadata:
  assumes "map_of tests tid = Some test"
  shows "get_filtered_channels tests tid all_channels =
     filter (\<lambda>ch. map_of (canonical_metadata test) ch = None \<or> spec_channel_passes test ch)
       all_channels"
proof -
  have "channel_appended test =
     (\<lambda>ch. map_of (canonical_metadata test) ch = None \<or> spec_channel_passes test ch)"
    by (rule ext) (rule channel_appended_iff)
  with assms show ?thesis
    by (simp add: get_filtered_channels_def)
qed

theorem filtered_channels_with_metadata_witness:
  "map_of [(''t0'', picker_test)] ''t0'' = Some picker_test \<and>
   get_filtered_channels [(''t0'', picker_test)] ''t0'' [''Temp_C'', ''Press_PSI'', ''Extra''] =
     [''Temp_C'', ''Extra'']"
proof -
  have h: "map_of [(''t0'', picker_test)] ''t0'' = Some picker_test"
    by simp
  have e: "filter (\<lambda>ch. map_of (canonical_metadata picker_test) ch = None \<or>
                      spec_channel_passes picker_test ch)
             [''Temp_C'', ''Press_PSI'', ''Extra''] = [''Temp_C'', ''Extra'']"
    by (simp add: picker_test_def new_test_def new_filter_state_def spec_channel_passes_def
          spec_text_ok_def spec_category_ok_def spec_unit_ok_def lower_def lower_char_def Let_def)
  from filtered_channels_with_metadata [OF h, of "[''Temp_C'', ''Press_PSI'', ''Extra'']"] e h
  show ?thesis
    by (simp only:)
qed

section \<open>Header reconciliation\<close>

record HeaderDiff =
  missing :: "string list"
  extra :: "string list"
  matched :: "string list"
  fuzzy_matches :: "(string, string) dict"

definition has_differences :: "HeaderDiff \<Rightarrow> bool" where
  "has_differences d = (missing d \<noteq> [] \<or> extra d \<noteq> [])"

text \<open>\<open>d[k] = v\<close> on a dict.\<close>

fun dict_set :: "('k, 'v) dict \<Rightarrow> 'k \<Rightarrow> 'v \<Rightarrow> ('k, 'v) dict" where
  "dict_set [] k v = [(k, v)]"
| "dict_set ((k', v') # d) k v = (if k' = k then (k, v) # d else (k', v') # dict_set d k v)"

text \<open>
  The inner loop of \<open>compute_header_diff\<close> over the missing headers, on the pair
  \<open>(best_match, best_score)\<close>.  The similarity function \<open>fuzz.token_sort_ratio\<close> of the
  rapidfuzz library is the parameter \<open>ratio\<close>.
\<close>

fun best_match_loop ::
  "(string \<Rightarrow> string \<Rightarrow> real) \<Rightarrow> int \<Rightarrow> string \<Rightarrow> string list \<Rightarrow>
     string option \<times> real \<Rightarrow> string option \<times> real" where
  "best_match_loop ratio thr extra_h [] st = st"
| "best_match_loop ratio thr extra_h (missing_h # rest) (best_match, best_score) =
     (let score = ratio (lower extra_h) (lower missing_h) in
      if score > best_score \<and> score \<ge> of_int thr
      then best_match_loop ratio thr extra_h rest (Some missing_h, score)
      else best_match_loop ratio thr extra_h rest (best_match, best_score))"

text \<open>One round of the outer loop; \<open>if best_match:\<close> is false for \<open>None\<close> and for the empty
  string.\<close>

definition fuzzy_step ::
  "(string \<Rightarrow> string \<Rightarrow> real) \<Rightarrow> int \<Rightarrow> string list \<Rightarrow> (string, string) dict \<Rightarrow> string \<Rightarrow>
     (string, string) dict" where
  "fuzzy_step ratio thr missing_l fm extra_h =
     (case fst (best_match_loop ratio thr extra_h missing_l (None, 0)) of
        None \<Rightarrow> fm
      | Some best_match \<Rightarrow> if best_match \<noteq> [] then dict_set fm extra_h best_match else fm)"

definition compute_header_diff ::
  "(string list \<Rightarrow> string list) \<Rightarrow> (string \<Rightarrow> string \<Rightarrow> real) \<Rightarrow>
     string list \<Rightarrow> string list \<Rightarrow> int \<Rightarrow> HeaderDiff" where
  "compute_header_diff so ratio test_headers file_headers fuzzy_threshold =
     (let matched_l = so (filter (\<lambda>h. h \<in> set file_headers) test_headers);
          missing_l = so (filter (\<lambda>h. h \<notin> set file_headers) test_headers);
          extra_l = so (filter (\<lambda>h. h \<notin> set test_headers) file_headers);
          fm = foldl (fuzzy_step ratio fuzzy_threshold missing_l) [] extra_l
      in \<lparr>missing = sort missing_l, extra = sort extra_l, matched = sort matched_l,
          fuzzy_matches = fm\<rparr>)"

text \<open>The similarity score of two headers as \<open>compute_header_diff\<close> takes it.\<close>

definition score_of :: "(string \<Rightarrow> string \<Rightarrow> real) \<Rightarrow> string \<Rightarrow> string \<Rightarrow> real" where
  "score_of ratio e m = ratio (lower e) (lower m)"

lemma map_of_dict_set: "map_of (dict_set d k v) = (map_of d)(k \<mapsto> v)"
  by (induction d k v rule: dict_set.induct) (auto simp: fun_eq_iff)

lemma keys_dict_set: "fst ` set (dict_set d k v) = insert k (fst ` set d)"
  by (induction d k v rule: dict_set.induct) auto

lemma map_fst_dict_set:
  "map fst (dict_set d k v) = (if k \<in> set (map fst d) then map fst d else map fst d @ [k])"
  by (induction d k v rule: dict_set.induct) auto

lemma distinct_dict_set: "distinct (map fst d) \<Longrightarrow> distinct (map fst (dict_set d k v))"
  by (simp add: map_fst_dict_set)

text \<open>The invariant of the inner loop, for the headers \<open>S\<close> already visited.\<close>

definition best_inv ::
  "(string \<Rightarrow> string \<Rightarrow> real) \<Rightarrow> int \<Rightarrow> string \<Rightarrow> string set \<Rightarrow> string option \<times> real \<Rightarrow> bool" where
  "best_inv ratio thr e S st =
     (case st of (bm, bs) \<Rightarrow>
        (\<forall>m \<in> S. score_of ratio e m \<le> bs \<or> score_of ratio e m < of_int thr) \<and>
        (case bm of
           None \<Rightarrow> bs = 0
         | Some m \<Rightarrow> m \<in> S \<and> score_of ratio e m = bs \<and> 0 < bs \<and> of_int thr \<le> bs))"

lemma best_match_loop_inv:
  "best_inv ratio thr e S st \<Longrightarrow>
     best_inv ratio thr e (S \<union> set ms) (best_match_loop ratio thr e ms st)"
proof (induction ms arbitrary: S st)
  case Nil
  then show ?case by simp
next
  case (Cons m ms)
  obtain bm bs where st: "st = (bm, bs)"
    by (cases st)
  let ?sc = "ratio (lower e) (lower m)"
  have nonneg: "0 \<le> bs"
    using Cons.prems by (auto simp: best_inv_def st split: option.splits)
  show ?case
  proof (cases "?sc > bs \<and> ?sc \<ge> of_int thr")
    case True
    have "best_inv ratio thr e (insert m S) (Some m, ?sc)"
      using Cons.prems True nonneg
      by (fastforce simp: best_inv_def st score_of_def)
    from Cons.IH [OF this] True show ?thesis
      by (simp add: st)
  next
    case False
    have "best_inv ratio thr e (insert m S) (bm, bs)"
      using Cons.prems False
      by (cases bm) (auto simp: best_inv_def st score_of_def)
    from Cons.IH [OF this] False show ?thesis
      by (auto simp: st Let_def)
  qed
qed

lemma best_match_loop_final:
  "best_inv ratio thr e (set ms) (best_match_loop ratio thr e ms (None, 0))"
proof -
  have "best_inv ratio thr e {} (None, 0)"
    by (simp add: best_inv_def)
  from best_match_loop_inv [OF this, of ms] show ?thesis
    by simp
qed

text \<open>What one round of the outer loop stores for an extra header, if anything.\<close>

definition suggestion ::
  "(string \<Rightarrow> string \<Rightarrow> real) \<Rightarrow> int \<Rightarrow> string list \<Rightarrow> string \<Rightarrow> string option" where
  "suggestion ratio thr ms e =
     (case fst (best_match_loop ratio thr e ms (None, 0)) of
        None \<Rightarrow> None
      | Some m \<Rightarrow> if m \<noteq> [] then Some m else None)"

lemma fuzzy_step_suggestion:
  "fuzzy_step ratio thr ms fm e =
     (case suggestion ratio thr ms e of None \<Rightarrow> fm | Some m \<Rightarrow> dict_set fm e m)"
  by (simp add: fuzzy_step_def suggestion_def split: option.splits)

lemma suggestion_Some:
  assumes "suggestion ratio thr ms e = Some m"
  shows "m \<in> set ms \<and> m \<noteq> [] \<and> 0 < score_of ratio e m \<and> of_int thr \<le> score_of ratio e m \<and>
         (\<forall>m' \<in> set ms. score_of ratio e m' \<le> score_of ratio e m)"
proof -
  obtain bs where b: "best_match_loop ratio thr e ms (None, 0) = (Some m, bs)" and ne: "m \<noteq> []"
    using assms
    by (cases "best_match_loop ratio thr e ms (None, 0)")
       (auto simp: suggestion_def split: option.splits if_splits)
  from best_match_loop_final [of ratio thr e ms] b
  have i: "(\<forall>m' \<in> set ms. score_of ratio e m' \<le> bs \<or> score_of ratio e m' < of_int thr)"
    and j: "m \<in> set ms \<and> score_of ratio e m = bs \<and> 0 < bs \<and> of_int thr \<le> bs"
    by (simp_all add: best_inv_def)
  from i j have "\<forall>m' \<in> set ms. score_of ratio e m' \<le> score_of ratio e m"
    by fastforce
  with j ne show ?thesis by simp
qed

lemma suggestion_None:
  assumes "suggestion ratio thr ms e = None" and "[] \<notin> set ms"
  shows "\<forall>m' \<in> set ms. score_of ratio e m' < of_int thr \<or> score_of ratio e m' \<le> 0"
proof (cases "best_match_loop ratio thr e ms (None, 0)")
  case (Pair bm bs)
  from best_match_loop_final [of ratio thr e ms] Pair
  have i: "(\<forall>m' \<in> set ms. score_of ratio e m' \<le> bs \<or> score_of ratio e m' < of_int thr)"
    and j: "(case bm of None \<Rightarrow> bs = 0 | Some m \<Rightarrow> m \<in> set ms)"
    by (simp_all add: best_inv_def split: option.splits)
  show ?thesis
  proof (cases bm)
    case None
    with j have "bs = 0" by simp
    with i show ?thesis
      by fastforce
  next
    case (Some m)
    with j assms(2) have "m \<noteq> []" by auto
    with assms(1) Pair Some show ?thesis
      by (simp add: suggestion_def)
  qed
qed

lemma foldl_fuzzy_step_map_of:
  "map_of (foldl (fuzzy_step ratio thr ms) fm es) e =
     (if e \<in> set es
      then (case suggestion ratio thr ms e of None \<Rightarrow> map_of fm e | Some m \<Rightarrow> Some m)
      else map_of fm e)"
proof (induction es arbitrary: fm)
  case Nil
  show ?case by simp
next
  case (Cons x es)
  have st: "map_of (fuzzy_step ratio thr ms fm x) =
      (case suggestion ratio thr ms x of None \<Rightarrow> map_of fm | Some m \<Rightarrow> (map_of fm)(x \<mapsto> m))"
    by (simp add: fuzzy_step_suggestion map_of_dict_set split: option.splits)
  show ?case
    by (simp add: Cons.IH st split: option.splits)
qed

lemma foldl_fuzzy_step_keys:
  "set (map fst (foldl (fuzzy_step ratio thr ms) fm es)) \<subseteq> set (map fst fm) \<union> set es"
proof (induction es arbitrary: fm)
  case Nil
  show ?case by simp
next
  case (Cons x es)
  have "set (map fst (fuzzy_step ratio thr ms fm x)) \<subseteq> insert x (set (map fst fm))"
    by (cases "suggestion ratio thr ms x")
       (auto simp: fuzzy_step_suggestion keys_dict_set)
  with Cons.IH [of "fuzzy_step ratio thr ms fm x"] show ?case
    by auto
qed

lemma foldl_fuzzy_step_distinct:
  "distinct (map fst fm) \<Longrightarrow> distinct (map fst (foldl (fuzzy_step ratio thr ms) fm es))"
proof (induction es arbitrary: fm)
  case Nil
  then show ?case by simp
next
  case (Cons x es)
  from Cons.prems have "distinct (map fst (fuzzy_step ratio thr ms fm x))"
    by (auto simp: fuzzy_step_suggestion distinct_dict_set split: option.splits)
  from Cons.IH [OF this] show ?case
    by simp
qed

lemma sort_set_iteration:
  assumes "set_iteration so"
  shows "sort (so xs) = sorted_list_of_set (set xs)"
proof -
  from assms have d: "distinct (so xs)" and s: "set (so xs) = set xs"
    by (simp_all add: set_iteration_def)
  have "sorted_list_of_set (set (so xs)) = sort (remdups (so xs))"
    by (rule sorted_list_of_set_sort_remdups)
  with d s show ?thesis
    by (simp add: distinct_remdups_id)
qed

text \<open>A similarity function for the examples: 100 for equal strings, 0 otherwise.  On strings
  without a common character this is the value of \<open>token_sort_ratio\<close>.\<close>

definition exact_ratio :: "string \<Rightarrow> string \<Rightarrow> real" where
  "exact_ratio a b = (if a = b then 100 else 0)"

definition diff_threshold_zero :: HeaderDiff where
  "diff_threshold_zero = compute_header_diff remdups exact_ratio [''abc''] [''xyz''] 0"

definition diff_renamed :: HeaderDiff where
  "diff_renamed =
     compute_header_diff remdups exact_ratio [''Time'', ''Pressure_Main'']
       [''Volt'', ''Time'', ''Pressure_main''] 80"

text \<open>
  C5 at a concrete input: the canonical header abc, the incoming header xyz and the
  threshold 0.  The extra header xyz and the missing header abc have the score 0, which
  equals the threshold, so the claim (and the range 0 to 100 that the docstring gives for the
  threshold) asks for the suggestion abc.  The loop starts from \<open>best_score = 0\<close> and takes a
  header only if \<open>score > best_score\<close>: no suggestion is made.
\<close>

theorem threshold_zero_rejects_equal_score:
  "missing diff_threshold_zero = [''abc''] \<and> extra diff_threshold_zero = [''xyz''] \<and>
   real_of_int 0 \<le> score_of exact_ratio ''xyz'' ''abc'' \<and>
   map_of (fuzzy_matches diff_threshold_zero) ''xyz'' = None"
  by (simp add: diff_threshold_zero_def compute_header_diff_def fuzzy_step_def score_of_def
        exact_ratio_def lower_def lower_char_def Let_def)

text \<open>
  The rest of \<open>compute_header_diff\<close>, for every input.  It returns as matched, missing and
  extra the intersection and the two differences of the header sets, each sorted
  lexicographically, and \<open>has_differences\<close> holds iff missing or extra is non-empty.  Each
  extra header has at most one suggestion; a suggestion is a missing header of highest score,
  and that score is at least the threshold; an extra header none of whose scores reaches the
  threshold has no suggestion.  An extra header has a suggestion as soon as some missing
  header has a positive score that is at least the threshold, at every threshold, so that a
  positive score equal to the threshold is accepted (the empty string, which \<open>if best_match:\<close>
  discards, being no canonical header).
\<close>

theorem header_diff_characterised:
  assumes "set_iteration so"
  shows "matched (compute_header_diff so ratio A B thr) = sorted_list_of_set (set A \<inter> set B) \<and>
    missing (compute_header_diff so ratio A B thr) = sorted_list_of_set (set A - set B) \<and>
    extra (compute_header_diff so ratio A B thr) = sorted_list_of_set (set B - set A) \<and>
    (has_differences (compute_header_diff so ratio A B thr) \<longleftrightarrow>
       missing (compute_header_diff so ratio A B thr) \<noteq> [] \<or>
       extra (compute_header_diff so ratio A B thr) \<noteq> []) \<and>
    distinct (map fst (fuzzy_matches (compute_header_diff so ratio A B thr))) \<and>
    set (map fst (fuzzy_matches (compute_header_diff so ratio A B thr))) \<subseteq> set B - set A \<and>
    (\<forall>e m. map_of (fuzzy_matches (compute_header_diff so ratio A B thr)) e = Some m \<longrightarrow>
       m \<in> set A - set B \<and> of_int thr \<le> score_of ratio e m \<and>
       (\<forall>m' \<in> set A - set B. score_of ratio e m' \<le> score_of ratio e m)) \<and>
    (\<forall>e. (\<forall>m \<in> set A - set B. score_of ratio e m < of_int thr) \<longrightarrow>
       map_of (fuzzy_matches (compute_header_diff so ratio A B thr)) e = None) \<and>
    ([] \<notin> set A \<longrightarrow>
       (\<forall>e \<in> set B - set A.
          (\<exists>m \<in> set A - set B. of_int thr \<le> score_of ratio e m \<and> 0 < score_of ratio e m) \<longrightarrow>
          map_of (fuzzy_matches (compute_header_diff so ratio A B thr)) e \<noteq> None))"
proof -
  let ?d = "compute_header_diff so ratio A B thr"
  let ?ms = "so (filter (\<lambda>h. h \<notin> set B) A)"
  let ?es = "so (filter (\<lambda>h. h \<notin> set A) B)"
  have it: "\<And>xs. set (so xs) = set xs"
    using assms by (simp add: set_iteration_def)
  have ms: "set ?ms = set A - set B" and es: "set ?es = set B - set A"
    by (auto simp: it)
  have fm: "fuzzy_matches ?d = foldl (fuzzy_step ratio thr ?ms) [] ?es"
    by (simp add: compute_header_diff_def Let_def)
  have look: "map_of (fuzzy_matches ?d) e =
      (if e \<in> set B - set A then suggestion ratio thr ?ms e else None)" for e
    by (simp add: fm foldl_fuzzy_step_map_of es split: option.splits)
  have 1: "matched ?d = sorted_list_of_set (set A \<inter> set B)"
  proof -
    have "set (filter (\<lambda>h. h \<in> set B) A) = set A \<inter> set B" by auto
    then show ?thesis
      by (simp add: compute_header_diff_def Let_def sort_set_iteration [OF assms])
  qed
  have 2: "missing ?d = sorted_list_of_set (set A - set B)"
  proof -
    have "set (filter (\<lambda>h. h \<notin> set B) A) = set A - set B" by auto
    then show ?thesis
      by (simp add: compute_header_diff_def Let_def sort_set_iteration [OF assms])
  qed
  have 3: "extra ?d = sorted_list_of_set (set B - set A)"
  proof -
    have "set (filter (\<lambda>h. h \<notin> set A) B) = set B - set A" by auto
    then show ?thesis
      by (simp add: compute_header_diff_def Let_def sort_set_iteration [OF assms])
  qed
  have 4: "has_differences ?d \<longleftrightarrow> missing ?d \<noteq> [] \<or> extra ?d \<noteq> []"
    by (simp add: has_differences_def)
  have 5: "distinct (map fst (fuzzy_matches ?d))"
    by (simp only: fm) (rule foldl_fuzzy_step_distinct, simp)
  have 6: "set (map fst (fuzzy_matches ?d)) \<subseteq> set B - set A"
    using foldl_fuzzy_step_keys [of ratio thr ?ms "[]" ?es]
    by (simp only: fm es) simp
  have 7: "\<forall>e m. map_of (fuzzy_matches ?d) e = Some m \<longrightarrow>
       m \<in> set A - set B \<and> of_int thr \<le> score_of ratio e m \<and>
       (\<forall>m' \<in> set A - set B. score_of ratio e m' \<le> score_of ratio e m)"
  proof (intro allI impI)
    fix e m
    assume "map_of (fuzzy_matches ?d) e = Some m"
    then have "suggestion ratio thr ?ms e = Some m"
      by (simp add: look split: if_splits)
    from suggestion_Some [OF this]
    show "m \<in> set A - set B \<and> of_int thr \<le> score_of ratio e m \<and>
       (\<forall>m' \<in> set A - set B. score_of ratio e m' \<le> score_of ratio e m)"
      by (simp only: ms) simp
  qed
  have 8: "\<forall>e. (\<forall>m \<in> set A - set B. score_of ratio e m < of_int thr) \<longrightarrow>
       map_of (fuzzy_matches ?d) e = None"
  proof (intro allI impI)
    fix e
    assume low: "\<forall>m \<in> set A - set B. score_of ratio e m < of_int thr"
    show "map_of (fuzzy_matches ?d) e = None"
    proof (cases "map_of (fuzzy_matches ?d) e")
      case None
      then show ?thesis .
    next
      case (Some m)
      with 7 have a: "m \<in> set A - set B" and b: "of_int thr \<le> score_of ratio e m"
        by blast+
      from low a have "score_of ratio e m < of_int thr"
        by blast
      with b show ?thesis by simp
    qed
  qed
  have 9: "[] \<notin> set A \<longrightarrow>
       (\<forall>e \<in> set B - set A.
          (\<exists>m \<in> set A - set B. of_int thr \<le> score_of ratio e m \<and> 0 < score_of ratio e m) \<longrightarrow>
          map_of (fuzzy_matches ?d) e \<noteq> None)"
  proof (intro impI ballI notI)
    fix e
    assume h: "[] \<notin> set A" and e: "e \<in> set B - set A"
      and ex: "\<exists>m \<in> set A - set B. of_int thr \<le> score_of ratio e m \<and> 0 < score_of ratio e m"
      and n: "map_of (fuzzy_matches ?d) e = None"
    from n e have "suggestion ratio thr ?ms e = None"
      by (simp add: look)
    moreover from h have "[] \<notin> set ?ms"
      by (simp only: ms) simp
    ultimately have "\<forall>m' \<in> set ?ms. score_of ratio e m' < of_int thr \<or> score_of ratio e m' \<le> 0"
      by (rule suggestion_None)
    then have low: "\<forall>m' \<in> set A - set B.
        score_of ratio e m' < of_int thr \<or> score_of ratio e m' \<le> 0"
      by (simp only: ms)
    from ex obtain m where a: "m \<in> set A - set B" and b: "of_int thr \<le> score_of ratio e m"
      and c: "0 < score_of ratio e m"
      by blast
    from low a have "score_of ratio e m < of_int thr \<or> score_of ratio e m \<le> 0"
      by blast
    with b c show False by simp
  qed
  from 1 2 3 4 5 6 7 8 9 show ?thesis
    by (intro conjI)
qed

theorem header_diff_characterised_witness:
  "set_iteration remdups \<and> [] \<notin> set [''Time'', ''Pressure_Main''] \<and>
   matched diff_renamed = [''Time''] \<and>
   missing diff_renamed = [''Pressure_Main''] \<and>
   extra diff_renamed = [''Pressure_main'', ''Volt''] \<and>
   has_differences diff_renamed \<and>
   map_of (fuzzy_matches diff_renamed) ''Pressure_main'' = Some ''Pressure_Main'' \<and>
   map_of (fuzzy_matches diff_renamed) ''Volt'' = None"
proof -
  let ?A = "[''Time'', ''Pressure_Main'']"
  let ?B = "[''Volt'', ''Time'', ''Pressure_main'']"
  have s: "set_iteration remdups"
    by (simp add: set_iteration_def)
  note t = header_diff_characterised [OF s, of exact_ratio ?A ?B 80, folded diff_renamed_def]
  have lists: "matched diff_renamed = [''Time''] \<and>
      missing diff_renamed = [''Pressure_Main''] \<and>
      extra diff_renamed = [''Pressure_main'', ''Volt'']"
    by (simp add: diff_renamed_def compute_header_diff_def Let_def less_eq_list_code)
  from t lists have hd: "has_differences diff_renamed"
    by simp
  have sc: "score_of exact_ratio ''Pressure_main'' ''Pressure_Main'' = 100"
    by (simp add: score_of_def exact_ratio_def lower_def lower_char_def)
  from t have complete: "[] \<notin> set ?A \<longrightarrow>
       (\<forall>e \<in> set ?B - set ?A.
          (\<exists>m \<in> set ?A - set ?B. real_of_int 80 \<le> score_of exact_ratio e m \<and>
             0 < score_of exact_ratio e m) \<longrightarrow>
          map_of (fuzzy_matches diff_renamed) e \<noteq> None)"
    by blast
  have p: "[] \<notin> set ?A"
    by simp
  have "''Pressure_main'' \<in> set ?B - set ?A"
    by simp
  moreover have "\<exists>m \<in> set ?A - set ?B.
      real_of_int 80 \<le> score_of exact_ratio ''Pressure_main'' m \<and>
      0 < score_of exact_ratio ''Pressure_main'' m"
    by (simp add: sc)
  ultimately have "map_of (fuzzy_matches diff_renamed) ''Pressure_main'' \<noteq> None"
    using complete p by blast
  then obtain m where m: "map_of (fuzzy_matches diff_renamed) ''Pressure_main'' = Some m"
    by blast
  with t have "m \<in> set ?A - set ?B"
    by blast
  then have "m = ''Pressure_Main''"
    by simp
  with m have pm: "map_of (fuzzy_matches diff_renamed) ''Pressure_main'' = Some ''Pressure_Main''"
    by simp
  have "\<forall>m \<in> set ?A - set ?B. score_of exact_ratio ''Volt'' m < of_int 80"
    by (simp add: score_of_def exact_ratio_def lower_def lower_char_def)
  with t have v: "map_of (fuzzy_matches diff_renamed) ''Volt'' = None"
    by blast
  from s lists hd pm v show ?thesis
    by simp
qed

section \<open>Serialization\<close>

text \<open>
  The values that \<open>to_dict\<close> puts into a dictionary.  Python stores whatever value a dictionary
  holds into the object it builds; the records of this theory are typed, so reading a value
  of another shape than the field's is reported as \<open>TypeError\<close>.
\<close>

datatype pyval =
    PNone
  | PBool bool
  | PFloat pyfloat
  | PStr string
  | PList "pyval list"
  | PTuple "pyval list"
  | PDict "(string \<times> pyval) list"

definition bind_err :: "error + 'a \<Rightarrow> ('a \<Rightarrow> error + 'b) \<Rightarrow> error + 'b" where
  "bind_err m f = (case m of Inl e \<Rightarrow> Inl e | Inr x \<Rightarrow> f x)"

text \<open>\<open>data.get(k, default)\<close> and \<open>data[k]\<close>.\<close>

definition dict_get :: "(string, pyval) dict \<Rightarrow> string \<Rightarrow> pyval \<Rightarrow> pyval" where
  "dict_get data k dflt = (case map_of data k of None \<Rightarrow> dflt | Some v \<Rightarrow> v)"

definition dict_item :: "(string, pyval) dict \<Rightarrow> string \<Rightarrow> error + pyval" where
  "dict_item data k = (case map_of data k of None \<Rightarrow> Inl KeyError | Some v \<Rightarrow> Inr v)"

fun as_str :: "pyval \<Rightarrow> error + string" where
  "as_str (PStr s) = Inr s"
| "as_str _ = Inl TypeError"

fun as_float :: "pyval \<Rightarrow> error + pyfloat" where
  "as_float (PFloat x) = Inr x"
| "as_float _ = Inl TypeError"

fun as_bool :: "pyval \<Rightarrow> error + bool" where
  "as_bool (PBool b) = Inr b"
| "as_bool _ = Inl TypeError"

fun as_opt_float :: "pyval \<Rightarrow> error + pyfloat option" where
  "as_opt_float PNone = Inr None"
| "as_opt_float (PFloat x) = Inr (Some x)"
| "as_opt_float _ = Inl TypeError"

fun as_opt_str :: "pyval \<Rightarrow> error + string option" where
  "as_opt_str PNone = Inr None"
| "as_opt_str (PStr s) = Inr (Some s)"
| "as_opt_str _ = Inl TypeError"

fun as_list :: "pyval \<Rightarrow> error + pyval list" where
  "as_list (PList vs) = Inr vs"
| "as_list _ = Inl TypeError"

fun as_dict :: "pyval \<Rightarrow> error + (string, pyval) dict" where
  "as_dict (PDict d) = Inr d"
| "as_dict _ = Inl TypeError"

fun map_err :: "('a \<Rightarrow> error + 'b) \<Rightarrow> 'a list \<Rightarrow> error + 'b list" where
  "map_err f [] = Inr []"
| "map_err f (x # xs) = bind_err (f x) (\<lambda>y. bind_err (map_err f xs) (\<lambda>ys. Inr (y # ys)))"

definition as_str_list :: "pyval \<Rightarrow> error + string list" where
  "as_str_list v = bind_err (as_list v) (map_err as_str)"

fun as_bounds :: "pyval \<Rightarrow> error + (pyfloat option \<times> pyfloat option)" where
  "as_bounds (PTuple [lo, hi]) =
     bind_err (as_opt_float lo) (\<lambda>l. bind_err (as_opt_float hi) (\<lambda>h. Inr (l, h)))"
| "as_bounds _ = Inl TypeError"

definition as_channel_filters ::
  "pyval \<Rightarrow> error + (string, pyfloat option \<times> pyfloat option) dict" where
  "as_channel_filters v =
     bind_err (as_dict v)
       (map_err (\<lambda>(k, x). bind_err (as_bounds x) (\<lambda>b. Inr (k, b))))"

definition opt_float :: "pyfloat option \<Rightarrow> pyval" where
  "opt_float x = (case x of None \<Rightarrow> PNone | Some v \<Rightarrow> PFloat v)"

definition opt_str :: "string option \<Rightarrow> pyval" where
  "opt_str x = (case x of None \<Rightarrow> PNone | Some v \<Rightarrow> PStr v)"

definition bounds_val :: "pyfloat option \<times> pyfloat option \<Rightarrow> pyval" where
  "bounds_val b = PTuple [opt_float (fst b), opt_float (snd b)]"

subsection \<open>ChannelMetadata\<close>

definition ChannelMetadata_to_dict :: "ChannelMetadata \<Rightarrow> (string, pyval) dict" where
  "ChannelMetadata_to_dict m =
     [(''original_name'', PStr (original_name m)),
      (''display_name'', PStr (display_name m)),
      (''unit'', PStr (unit m)),
      (''category'', PStr (category m)),
      (''description'', PStr (cm_description m))]"

definition ChannelMetadata_from_dict :: "(string, pyval) dict \<Rightarrow> error + ChannelMetadata" where
  "ChannelMetadata_from_dict data =
     bind_err (bind_err (dict_item data ''original_name'') as_str) (\<lambda>v1.
     bind_err (bind_err (dict_item data ''display_name'') as_str) (\<lambda>v2.
     bind_err (as_str (dict_get data ''unit'' (PStr []))) (\<lambda>v3.
     bind_err (as_str (dict_get data ''category'' (PStr ''Unknown''))) (\<lambda>v4.
     bind_err (as_str (dict_get data ''description'' (PStr []))) (\<lambda>v5.
     Inr \<lparr>original_name = v1, display_name = v2, unit = v3, category = v4,
          cm_description = v5\<rparr>)))))"

text \<open>The loop \<open>for k, v in d.items(): target[k] = ChannelMetadata.from_dict(v)\<close>.\<close>

fun restore_metadata ::
  "(string, pyval) dict \<Rightarrow> (string, ChannelMetadata) dict \<Rightarrow> error + (string, ChannelMetadata) dict" where
  "restore_metadata [] acc = Inr acc"
| "restore_metadata ((k, v) # rest) acc =
     bind_err (as_dict v) (\<lambda>d.
     bind_err (ChannelMetadata_from_dict d) (\<lambda>m.
     restore_metadata rest (dict_set acc k m)))"

definition metadata_val :: "(string, ChannelMetadata) dict \<Rightarrow> pyval" where
  "metadata_val md = PDict (map (\<lambda>(k, m). (k, PDict (ChannelMetadata_to_dict m))) md)"

subsection \<open>FilterState\<close>

definition FilterState_to_dict :: "FilterState \<Rightarrow> (string, pyval) dict" where
  "FilterState_to_dict fs =
     [(''time_min'', opt_float (time_min fs)),
      (''time_max'', opt_float (time_max fs)),
      (''channel_filters'', PDict (map (\<lambda>(k, b). (k, bounds_val b)) (channel_filters fs))),
      (''text_search'', PStr (text_search fs)),
      (''category_filter'', PList (map PStr (category_filter fs))),
      (''unit_filter'', PList (map PStr (unit_filter fs))),
      (''enabled'', PBool (enabled fs))]"

definition FilterState_from_dict :: "(string, pyval) dict \<Rightarrow> error + FilterState" where
  "FilterState_from_dict data =
     bind_err (as_opt_float (dict_get data ''time_min'' PNone)) (\<lambda>v1.
     bind_err (as_opt_float (dict_get data ''time_max'' PNone)) (\<lambda>v2.
     bind_err (as_channel_filters (dict_get data ''channel_filters'' (PDict []))) (\<lambda>v3.
     bind_err (as_str (dict_get data ''text_search'' (PStr []))) (\<lambda>v4.
     bind_err (as_str_list (dict_get data ''category_filter'' (PList []))) (\<lambda>v5.
     bind_err (as_str_list (dict_get data ''unit_filter'' (PList []))) (\<lambda>v6.
     bind_err (as_bool (dict_get data ''enabled'' (PBool True))) (\<lambda>v7.
     Inr \<lparr>time_min = v1, time_max = v2, channel_filters = v3, text_search = v4,
          category_filter = v5, unit_filter = v6, enabled = v7\<rparr>)))))))"

lemma bind_err_Inr [simp]: "bind_err (Inr x) f = f x"
  by (simp add: bind_err_def)

lemma bind_err_Inl [simp]: "bind_err (Inl e) f = Inl e"
  by (simp add: bind_err_def)

lemma as_opt_float_roundtrip [simp]: "as_opt_float (opt_float x) = Inr x"
  by (cases x) (simp_all add: opt_float_def)

lemma as_opt_str_roundtrip [simp]: "as_opt_str (opt_str x) = Inr x"
  by (cases x) (simp_all add: opt_str_def)

lemma map_err_roundtrip:
  "(\<And>x. x \<in> set xs \<Longrightarrow> dec (enc x) = Inr x) \<Longrightarrow> map_err dec (map enc xs) = Inr xs"
  by (induction xs) simp_all

lemma as_str_list_roundtrip [simp]: "as_str_list (PList (map PStr xs)) = Inr xs"
  by (simp add: as_str_list_def map_err_roundtrip)

lemma as_bounds_roundtrip [simp]: "as_bounds (bounds_val b) = Inr b"
  by (simp add: bounds_val_def)

lemma as_channel_filters_roundtrip [simp]:
  "as_channel_filters (PDict (map (\<lambda>(k, b). (k, bounds_val b)) cf)) = Inr cf"
  by (simp add: as_channel_filters_def map_err_roundtrip split: prod.splits)

lemma ChannelMetadata_roundtrip [simp]:
  "ChannelMetadata_from_dict (ChannelMetadata_to_dict m) = Inr m"
  by (simp add: ChannelMetadata_from_dict_def ChannelMetadata_to_dict_def dict_item_def
        dict_get_def)

lemma FilterState_roundtrip [simp]:
  "FilterState_from_dict (FilterState_to_dict fs) = Inr fs"
  by (simp add: FilterState_from_dict_def FilterState_to_dict_def dict_get_def)

lemma dict_set_fresh: "k \<notin> fst ` set d \<Longrightarrow> dict_set d k v = d @ [(k, v)]"
  by (induction d k v rule: dict_set.induct) auto

lemma restore_metadata_roundtrip:
  "distinct (map fst md) \<Longrightarrow> fst ` set acc \<inter> fst ` set md = {} \<Longrightarrow>
     restore_metadata (map (\<lambda>(k, m). (k, PDict (ChannelMetadata_to_dict m))) md) acc =
       Inr (acc @ md)"
proof (induction md arbitrary: acc)
  case Nil
  show ?case by simp
next
  case (Cons e md)
  obtain k m where e: "e = (k, m)"
    by (cases e)
  from Cons.prems have fresh: "k \<notin> fst ` set acc"
    by (auto simp: e)
  have "fst ` set (acc @ [(k, m)]) \<inter> fst ` set md = {}"
    using Cons.prems by (auto simp: e)
  moreover from Cons.prems have "distinct (map fst md)"
    by simp
  ultimately have "restore_metadata (map (\<lambda>(k, m). (k, PDict (ChannelMetadata_to_dict m))) md)
      (acc @ [(k, m)]) = Inr ((acc @ [(k, m)]) @ md)"
    by (rule Cons.IH [rotated])
  then show ?case
    by (simp add: e dict_set_fresh [OF fresh])
qed

subsection \<open>DataFile\<close>

fun TimeMode_name :: "TimeMode \<Rightarrow> string" where
  "TimeMode_name ABSOLUTE = ''ABSOLUTE''"
| "TimeMode_name RELATIVE = ''RELATIVE''"
| "TimeMode_name CUSTOM_OFFSET = ''CUSTOM_OFFSET''"

definition TimeMode_of_name :: "pyval \<Rightarrow> error + TimeMode" where
  "TimeMode_of_name v =
     (if v = PStr ''ABSOLUTE'' then Inr ABSOLUTE
      else if v = PStr ''RELATIVE'' then Inr RELATIVE
      else if v = PStr ''CUSTOM_OFFSET'' then Inr CUSTOM_OFFSET
      else Inl KeyError)"

fun JoinStrategy_name :: "JoinStrategy \<Rightarrow> string" where
  "JoinStrategy_name TIME_NEAREST = ''TIME_NEAREST''"
| "JoinStrategy_name TIME_EXACT = ''TIME_EXACT''"
| "JoinStrategy_name ALTERNATIVE_KEY = ''ALTERNATIVE_KEY''"
| "JoinStrategy_name APPEND_SEGMENT = ''APPEND_SEGMENT''"

definition JoinStrategy_of_name :: "pyval \<Rightarrow> error + JoinStrategy" where
  "JoinStrategy_of_name v =
     (if v = PStr ''TIME_NEAREST'' then Inr TIME_NEAREST
      else if v = PStr ''TIME_EXACT'' then Inr TIME_EXACT
      else if v = PStr ''ALTERNATIVE_KEY'' then Inr ALTERNATIVE_KEY
      else if v = PStr ''APPEND_SEGMENT'' then Inr APPEND_SEGMENT
      else Inl KeyError)"

text \<open>Python's truth value of a dictionary entry.\<close>

fun truthy :: "pyval \<Rightarrow> bool" where
  "truthy PNone = False"
| "truthy (PBool b) = b"
| "truthy (PFloat x) = (\<not> feq x (Fin 0))"
| "truthy (PStr s) = (s \<noteq> [])"
| "truthy (PList vs) = (vs \<noteq> [])"
| "truthy (PTuple vs) = (vs \<noteq> [])"
| "truthy (PDict d) = (d \<noteq> [])"

text \<open>
  A path is kept as its string; \<open>Path(str(p))\<close> is \<open>p\<close>.  \<open>path_name\<close> is the final component
  (\<open>Path.name\<close>, empty for the path \<open>.\<close>), and \<open>post_init\<close> is \<open>DataFile.__post_init__\<close>: an
  empty filename is replaced by the final component of the path.
\<close>

definition path_name :: "string \<Rightarrow> string" where
  "path_name p = (if p = ''.'' then [] else rev (takeWhile (\<lambda>c. c \<noteq> CHR ''/'') (rev p)))"

definition post_init :: "DataFile \<Rightarrow> DataFile" where
  "post_init f = (if filename f = [] then f\<lparr>filename := path_name (filepath f)\<rparr> else f)"

definition DataFile_to_dict :: "DataFile \<Rightarrow> (string, pyval) dict" where
  "DataFile_to_dict f =
     [(''id'', PStr (file_id f)),
      (''filepath'', PStr (filepath f)),
      (''filename'', PStr (filename f)),
      (''delimiter'', PStr (delimiter f)),
      (''encoding'', PStr (encoding f)),
      (''headers'', PList (map PStr (headers f))),
      (''channel_metadata'', metadata_val (channel_metadata f)),
      (''time_column'', PStr (time_column f)),
      (''time_mode'', PStr (TimeMode_name (time_mode f))),
      (''time_offset'', PFloat (time_offset f)),
      (''time_scale'', PFloat (time_scale f)),
      (''join_strategy'',
         (case join_strategy f of None \<Rightarrow> PNone | Some j \<Rightarrow> PStr (JoinStrategy_name j))),
      (''join_key'', opt_str (join_key f)),
      (''join_tolerance'', PFloat (join_tolerance f))]"

text \<open>\<open>uuid\<close> is the identifier that \<open>uuid.uuid4()\<close> produces for a dictionary without an id.\<close>

definition DataFile_from_dict :: "string \<Rightarrow> (string, pyval) dict \<Rightarrow> error + DataFile" where
  "DataFile_from_dict uuid data =
     bind_err (as_str (dict_get data ''id'' (PStr uuid))) (\<lambda>v1.
     bind_err (bind_err (dict_item data ''filepath'') as_str) (\<lambda>v2.
     bind_err (as_str (dict_get data ''filename'' (PStr []))) (\<lambda>v3.
     bind_err (as_str (dict_get data ''delimiter'' (PStr '',''))) (\<lambda>v4.
     bind_err (as_str (dict_get data ''encoding'' (PStr ''utf-8''))) (\<lambda>v5.
     bind_err (as_str_list (dict_get data ''headers'' (PList []))) (\<lambda>v6.
     bind_err (as_str (dict_get data ''time_column'' (PStr []))) (\<lambda>v7.
     bind_err (TimeMode_of_name (dict_get data ''time_mode'' (PStr ''RELATIVE''))) (\<lambda>v8.
     bind_err (as_float (dict_get data ''time_offset'' (PFloat (Fin 0)))) (\<lambda>v9.
     bind_err (as_float (dict_get data ''time_scale'' (PFloat (Fin 1)))) (\<lambda>v10.
     bind_err (if truthy (dict_get data ''join_strategy'' PNone)
               then bind_err (bind_err (dict_item data ''join_strategy'') JoinStrategy_of_name)
                      (\<lambda>j. Inr (Some j))
               else Inr None) (\<lambda>v11.
     bind_err (as_opt_str (dict_get data ''join_key'' PNone)) (\<lambda>v12.
     bind_err (as_float (dict_get data ''join_tolerance'' (PFloat (Fin (1 / 1000))))) (\<lambda>v13.
     bind_err (as_dict (dict_get data ''channel_metadata'' (PDict []))) (\<lambda>md.
     bind_err (restore_metadata md []) (\<lambda>v14.
     Inr ((post_init
       \<lparr>file_id = v1, filepath = v2, filename = v3, delimiter = v4, encoding = v5,
        headers = v6, channel_metadata = [], dataframe = None, time_column = v7,
        time_mode = v8, time_offset = v9, time_scale = v10, join_strategy = v11,
        join_key = v12, join_tolerance = v13\<rparr>)\<lparr>channel_metadata := v14\<rparr>))))))))))))))))"

subsection \<open>Test\<close>

definition Test_to_dict :: "Test \<Rightarrow> (string, pyval) dict" where
  "Test_to_dict t =
     [(''id'', PStr (test_id t)),
      (''name'', PStr (name t)),
      (''description'', PStr (description t)),
      (''data_files'', PList (map (\<lambda>f. PDict (DataFile_to_dict f)) (data_files t))),
      (''canonical_headers'', PList (map PStr (canonical_headers t))),
      (''canonical_metadata'', metadata_val (canonical_metadata t)),
      (''primary_time_column'', PStr (primary_time_column t)),
      (''filter_state'', PDict (FilterState_to_dict (filter_state t))),
      (''compare_time_offset'', PFloat (compare_time_offset t)),
      (''color'', PStr (color t))]"

definition Test_from_dict :: "string \<Rightarrow> (string, pyval) dict \<Rightarrow> error + Test" where
  "Test_from_dict uuid data =
     bind_err (as_str (dict_get data ''id'' (PStr uuid))) (\<lambda>v1.
     bind_err (as_str (dict_get data ''name'' (PStr ''New Test''))) (\<lambda>v2.
     bind_err (as_str (dict_get data ''description'' (PStr []))) (\<lambda>v3.
     bind_err (as_str_list (dict_get data ''canonical_headers'' (PList []))) (\<lambda>v4.
     bind_err (as_str (dict_get data ''primary_time_column'' (PStr []))) (\<lambda>v5.
     bind_err (as_float (dict_get data ''compare_time_offset'' (PFloat (Fin 0)))) (\<lambda>v6.
     bind_err (as_str (dict_get data ''color'' (PStr ''#1f77b4''))) (\<lambda>v7.
     bind_err (bind_err (as_list (dict_get data ''data_files'' (PList [])))
                 (map_err (\<lambda>v. bind_err (as_dict v) (DataFile_from_dict uuid)))) (\<lambda>v8.
     bind_err (as_dict (dict_get data ''canonical_metadata'' (PDict []))) (\<lambda>md.
     bind_err (restore_metadata md []) (\<lambda>v9.
     bind_err (case map_of data ''filter_state'' of
                 None \<Rightarrow> Inr new_filter_state
               | Some v \<Rightarrow> bind_err (as_dict v) FilterState_from_dict) (\<lambda>v10.
     Inr \<lparr>test_id = v1, name = v2, description = v3, data_files = v8,
          canonical_headers = v4, canonical_metadata = v9, primary_time_column = v5,
          filter_state = v10, compare_time_offset = v6, color = v7\<rparr>)))))))))))"

text \<open>A file as it is after a round trip: the table is gone, and an empty filename has been
  replaced as \<open>__post_init__\<close> does.\<close>

definition reloaded :: "DataFile \<Rightarrow> DataFile" where
  "reloaded f = post_init (f\<lparr>dataframe := None\<rparr>)"

lemma TimeMode_name_roundtrip [simp]: "TimeMode_of_name (PStr (TimeMode_name m)) = Inr m"
  by (cases m) (simp_all add: TimeMode_of_name_def)

lemma JoinStrategy_name_roundtrip [simp]:
  "JoinStrategy_of_name (PStr (JoinStrategy_name j)) = Inr j"
  by (cases j) (simp_all add: JoinStrategy_of_name_def)

lemma JoinStrategy_name_nonempty [simp]: "JoinStrategy_name j \<noteq> []"
  by (cases j) simp_all

lemma restore_metadata_val:
  "distinct (map fst md) \<Longrightarrow>
     bind_err (as_dict (metadata_val md)) (\<lambda>d. restore_metadata d []) = Inr md"
  using restore_metadata_roundtrip [of md "[]"] by (simp add: metadata_val_def)

lemma DataFile_roundtrip:
  assumes "distinct (map fst (channel_metadata f))"
  shows "DataFile_from_dict uuid (DataFile_to_dict f) = Inr (reloaded f)"
proof -
  have md: "restore_metadata
      (map (\<lambda>(k, m). (k, PDict (ChannelMetadata_to_dict m))) (channel_metadata f)) [] =
      Inr (channel_metadata f)"
    using restore_metadata_roundtrip [of "channel_metadata f" "[]"] assms by simp
  show ?thesis
    by (cases "join_strategy f")
       (simp_all add: DataFile_from_dict_def DataFile_to_dict_def dict_get_def dict_item_def
          metadata_val_def md reloaded_def post_init_def)
qed

lemma data_files_roundtrip:
  assumes "\<forall>f \<in> set fs. distinct (map fst (channel_metadata f))"
  shows "map_err (\<lambda>v. bind_err (as_dict v) (DataFile_from_dict uuid))
           (map (\<lambda>f. PDict (DataFile_to_dict f)) fs) = Inr (map reloaded fs)"
  using assms by (induction fs) (simp_all add: DataFile_roundtrip)

lemma Test_roundtrip:
  assumes "distinct (map fst (canonical_metadata t))"
    and "\<forall>f \<in> set (data_files t). distinct (map fst (channel_metadata f))"
  shows "Test_from_dict uuid (Test_to_dict t) =
           Inr (t\<lparr>data_files := map reloaded (data_files t)\<rparr>)"
proof -
  have md: "restore_metadata
      (map (\<lambda>(k, m). (k, PDict (ChannelMetadata_to_dict m))) (canonical_metadata t)) [] =
      Inr (canonical_metadata t)"
    using restore_metadata_roundtrip [of "canonical_metadata t" "[]"] assms(1) by simp
  show ?thesis
    by (simp add: Test_from_dict_def Test_to_dict_def dict_get_def metadata_val_def md
          data_files_roundtrip [OF assms(2)])
qed

definition wf_dicts :: "Test \<Rightarrow> bool" where
  "wf_dicts t =
     (distinct (map fst (canonical_metadata t)) \<and>
      list_all (\<lambda>f. distinct (map fst (channel_metadata f))) (data_files t))"

definition example_metadata :: ChannelMetadata where
  "example_metadata =
     \<lparr>original_name = ''Temp'', display_name = ''Temp'', unit = ''C'',
      category = ''Temperature'', cm_description = []\<rparr>"

definition saved_file :: DataFile where
  "saved_file =
     example_file\<lparr>filepath := ''data/run1.csv'', filename := ''run1.csv'',
       channel_metadata := [(''Temp'', example_metadata)],
       join_strategy := Some ALTERNATIVE_KEY, join_key := Some ''Temp''\<rparr>"

definition saved_test :: Test where
  "saved_test =
     new_test\<lparr>data_files := [saved_file], canonical_headers := [''Time'', ''Temp''],
       canonical_metadata := [(''Temp'', example_metadata)], primary_time_column := ''Time'',
       filter_state := example_filter, compare_time_offset := Fin 3\<rparr>"

text \<open>
  C8. Deserializing the serialized dictionary form gives the object back: a FilterState
  exactly; a DataFile with the same id, headers, channel metadata, time settings (column,
  mode, offset, scale), join settings (strategy, key, tolerance), path, delimiter and
  encoding, and without its table (the filename is kept too, unless it is empty, in which
  case the constructor derives it from the path); a Test with the same id, name, description,
  canonical headers and metadata, primary time column, filter state, comparison offset and
  color, and with each of its files so reproduced.  The keys of each metadata dictionary are
  distinct, as the keys of a Python dict are.
\<close>

theorem serialization_roundtrip:
  assumes "wf_dicts t"
  shows "Test_from_dict uuid (Test_to_dict t) =
           Inr (t\<lparr>data_files := map reloaded (data_files t)\<rparr>) \<and>
    FilterState_from_dict (FilterState_to_dict fs) = Inr fs \<and>
    (\<forall>f \<in> set (data_files t).
       DataFile_from_dict uuid (DataFile_to_dict f) = Inr (reloaded f) \<and>
       reloaded f =
         f\<lparr>dataframe := None,
           filename := (if filename f = [] then path_name (filepath f) else filename f)\<rparr> \<and>
       file_id (reloaded f) = file_id f \<and>
       headers (reloaded f) = headers f \<and>
       channel_metadata (reloaded f) = channel_metadata f \<and>
       time_column (reloaded f) = time_column f \<and>
       time_mode (reloaded f) = time_mode f \<and>
       time_offset (reloaded f) = time_offset f \<and>
       time_scale (reloaded f) = time_scale f \<and>
       join_strategy (reloaded f) = join_strategy f \<and>
       join_key (reloaded f) = join_key f \<and>
       join_tolerance (reloaded f) = join_tolerance f \<and>
       dataframe (reloaded f) = None)"
proof (intro conjI ballI)
  from assms show "Test_from_dict uuid (Test_to_dict t) =
           Inr (t\<lparr>data_files := map reloaded (data_files t)\<rparr>)"
    by (intro Test_roundtrip) (simp_all add: wf_dicts_def list_all_iff)
  show "FilterState_from_dict (FilterState_to_dict fs) = Inr fs"
    by simp
next
  fix f
  assume "f \<in> set (data_files t)"
  with assms have "distinct (map fst (channel_metadata f))"
    by (simp add: wf_dicts_def list_all_iff)
  then show "DataFile_from_dict uuid (DataFile_to_dict f) = Inr (reloaded f)"
    by (rule DataFile_roundtrip)
qed (simp_all add: reloaded_def post_init_def)

theorem serialization_roundtrip_witness:
  "wf_dicts saved_test \<and>
   Test_from_dict ''fresh'' (Test_to_dict saved_test) =
     Inr (saved_test\<lparr>data_files := [saved_file\<lparr>dataframe := None\<rparr>]\<rparr>) \<and>
   DataFile_from_dict ''fresh'' (DataFile_to_dict saved_file) =
     Inr (saved_file\<lparr>dataframe := None\<rparr>)"
proof -
  have w: "wf_dicts saved_test"
    by (simp add: wf_dicts_def saved_test_def saved_file_def)
  have r: "reloaded saved_file = saved_file\<lparr>dataframe := None\<rparr>"
    by (simp add: reloaded_def post_init_def saved_file_def)
  have d: "data_files saved_test = [saved_file]"
    by (simp add: saved_test_def)
  from serialization_roundtrip [OF w, of "''fresh''"] show ?thesis
    by (simp add: w r d)
qed

section \<open>Table operations of pandas\<close>

text \<open>
  The operations that \<open>Test.get_merged_dataframe\<close> and the comparer call, on tables with
  distinct column labels.  \<open>ends_with s suf\<close> is \<open>s.endswith(suf)\<close>.
\<close>

definition ends_with :: "string \<Rightarrow> string \<Rightarrow> bool" where
  "ends_with s suf = starts_with (rev suf) (rev s)"

text \<open>\<open>df[c] = values\<close>: replaces the column, or appends it as the last one.\<close>

definition set_column :: "dataframe \<Rightarrow> string \<Rightarrow> pyfloat list \<Rightarrow> dataframe" where
  "set_column d c vals =
     (if c \<in> set (columns d)
      then d\<lparr>rows := map2 (\<lambda>r v. r[index_of c (columns d) := v]) (rows d) vals\<rparr>
      else \<lparr>columns = columns d @ [c], rows = map2 (\<lambda>r v. r @ [v]) (rows d) vals\<rparr>)"

text \<open>The row of table \<open>d\<close> laid out for the labels \<open>cs\<close>; a label that \<open>d\<close> lacks is missing.\<close>

definition reindex_row :: "dataframe \<Rightarrow> string list \<Rightarrow> pyfloat list \<Rightarrow> pyfloat list" where
  "reindex_row d cs r = map (\<lambda>c. if c \<in> set (columns d) then cell d c r else NaN) cs"

text \<open>\<open>df[cs]\<close> for a list of labels: \<open>KeyError\<close> if one of them is not a column.\<close>

definition select_columns :: "dataframe \<Rightarrow> string list \<Rightarrow> error + dataframe" where
  "select_columns d cs =
     (if set cs \<subseteq> set (columns d)
      then Inr \<lparr>columns = cs, rows = map (reindex_row d cs) (rows d)\<rparr>
      else Inl KeyError)"

text \<open>\<open>pd.concat([a, b], ignore_index=True)\<close>: the rows of \<open>a\<close>, then those of \<open>b\<close>, over the
  union of the columns.\<close>

definition concat_frames :: "dataframe \<Rightarrow> dataframe \<Rightarrow> dataframe" where
  "concat_frames a b =
     (let cs = columns a @ filter (\<lambda>c. c \<notin> set (columns a)) (columns b)
      in \<lparr>columns = cs, rows = map (reindex_row a cs) (rows a) @ map (reindex_row b cs) (rows b)\<rparr>)"

text \<open>
  \<open>df.sort_values(c)\<close>: \<open>KeyError\<close> if \<open>c\<close> is not a column; ascending, NaN last.  The sort is
  modelled as stable; pandas does not fix the order of rows with equal keys.
\<close>

definition sort_le :: "pyfloat \<Rightarrow> pyfloat \<Rightarrow> bool" where
  "sort_le a b = (isnan b \<or> (\<not> isnan a \<and> \<not> flt b a))"

fun insert_by :: "('a \<Rightarrow> pyfloat) \<Rightarrow> 'a \<Rightarrow> 'a list \<Rightarrow> 'a list" where
  "insert_by key r [] = [r]"
| "insert_by key r (x # xs) =
     (if sort_le (key r) (key x) then r # x # xs else x # insert_by key r xs)"

fun sort_by :: "('a \<Rightarrow> pyfloat) \<Rightarrow> 'a list \<Rightarrow> 'a list" where
  "sort_by key [] = []"
| "sort_by key (x # xs) = insert_by key x (sort_by key xs)"

definition sort_values :: "dataframe \<Rightarrow> string \<Rightarrow> error + dataframe" where
  "sort_values d c =
     (if c \<in> set (columns d) then Inr (d\<lparr>rows := sort_by (cell d c) (rows d)\<rparr>)
      else Inl KeyError)"

text \<open>
  \<open>pd.merge(left, right, on=key, how="outer", suffixes=(lsuf, rsuf))\<close>.  A missing key column
  is a \<open>KeyError\<close>.  The key column of the right table is dropped, and the labels of the
  result are made by \<open>items_overlap_with_suffix\<close> below.  The rows come by ascending key
  (equal keys match, NaN with NaN): per key the pairs of a left and a right row, or the
  unmatched rows of one side with the columns of the other side missing.
\<close>

definition outer_rows :: "dataframe \<Rightarrow> dataframe \<Rightarrow> string \<Rightarrow> pyfloat list list" where
  "outer_rows l r key =
     (let rcols = filter (\<lambda>c. c \<noteq> key) (columns r);
          lvals = reindex_row l (columns l);
          rvals = reindex_row r rcols;
          keys = sort_by (\<lambda>k. k) (remdups (map (cell l key) (rows l) @ map (cell r key) (rows r)))
      in concat (map (\<lambda>k.
           let ls = filter (\<lambda>x. cell l key x = k) (rows l);
               rs = filter (\<lambda>y. cell r key y = k) (rows r)
           in if rs = [] then map (\<lambda>x. lvals x @ map (\<lambda>c. NaN) rcols) ls
              else if ls = []
              then map (\<lambda>y. map (\<lambda>c. if c = key then k else NaN) (columns l) @ rvals y) rs
              else concat (map (\<lambda>x. map (\<lambda>y. lvals x @ rvals y) rs) ls)) keys))"

text \<open>
  \<open>Index.duplicated()\<close>: marks each label that has already occurred further left.
\<close>

fun duplicated_from :: "string list \<Rightarrow> string list \<Rightarrow> bool list" where
  "duplicated_from seen [] = []"
| "duplicated_from seen (x # xs) = (x \<in> set seen) # duplicated_from (x # seen) xs"

definition duplicated :: "string list \<Rightarrow> bool list" where
  "duplicated xs = duplicated_from [] xs"

text \<open>\<open>labels[labels.duplicated() & ~orig.duplicated()]\<close>: the labels that the suffix has
  made equal to an earlier one.\<close>

definition suffix_dups :: "string list \<Rightarrow> string list \<Rightarrow> string list" where
  "suffix_dups labels orig =
     map fst (filter (\<lambda>(x, dl, d). dl \<and> \<not> d)
       (zip labels (zip (duplicated labels) (duplicated orig))))"

text \<open>
  The labels of a merge (pandas' \<open>_items_overlap_with_suffix\<close>), from the labels of the left
  table and those of the right table without the key.  Without a common label both lists are
  kept.  Otherwise each common label gets the suffix of its side; two empty suffixes are a
  \<open>ValueError\<close>; and a \<open>MergeError\<close> is raised when the suffixes make two labels of one side
  equal, or make a label equal to a label that only the other table has.
\<close>

definition items_overlap_with_suffix ::
  "string list \<Rightarrow> string list \<Rightarrow> string \<Rightarrow> string \<Rightarrow> error + (string list \<times> string list)" where
  "items_overlap_with_suffix left right lsuf rsuf =
     (let to_rename = filter (\<lambda>c. c \<in> set right) left
      in if to_rename = [] then Inr (left, right)
         else if lsuf = [] \<and> rsuf = [] then Inl ValueError
         else
           let llabels = map (\<lambda>x. if x \<in> set to_rename then x @ lsuf else x) left;
               rlabels = map (\<lambda>x. if x \<in> set to_rename then x @ rsuf else x) right;
               dups = (if \<not> distinct llabels then suffix_dups llabels left else []) @
                      (if \<not> distinct rlabels then suffix_dups rlabels right else []) @
                      filter (\<lambda>x. x \<in> set right \<and> x \<notin> set to_rename) llabels @
                      filter (\<lambda>x. x \<in> set left \<and> x \<notin> set to_rename) rlabels
           in if dups \<noteq> [] then Inl MergeError else Inr (llabels, rlabels))"

definition merge_outer ::
  "dataframe \<Rightarrow> dataframe \<Rightarrow> string \<Rightarrow> string \<Rightarrow> string \<Rightarrow> error + dataframe" where
  "merge_outer l r key lsuf rsuf =
     (if key \<notin> set (columns l) \<or> key \<notin> set (columns r) then Inl KeyError
      else
        bind_err
          (items_overlap_with_suffix (columns l) (filter (\<lambda>c. c \<noteq> key) (columns r)) lsuf rsuf)
          (\<lambda>labels. Inr \<lparr>columns = fst labels @ snd labels, rows = outer_rows l r key\<rparr>))"

text \<open>\<open>Series.max()\<close>: missing values are skipped; NaN if nothing is left.\<close>

definition series_max :: "pyfloat list \<Rightarrow> pyfloat" where
  "series_max xs = (case filter (\<lambda>x. \<not> isnan x) xs of [] \<Rightarrow> NaN | y # ys \<Rightarrow> foldl py_max y ys)"

section \<open>Test: the merged table\<close>

text \<open>
  \<open>pd.merge_asof(left, right, on="_plot_time_", tolerance=tol, direction="nearest")\<close> is the
  parameter \<open>asof\<close>: it is given the two sorted tables and the tolerance.
\<close>

type_synonym asof_join = "dataframe \<Rightarrow> dataframe \<Rightarrow> pyfloat \<Rightarrow> error + dataframe"

text \<open>The copy of a file's table with the plot-time column, when the Test's time column is
  one of the file's columns.\<close>

definition with_plot_time :: "string \<Rightarrow> DataFile \<Rightarrow> dataframe \<Rightarrow> dataframe" where
  "with_plot_time time_col f d =
     (case get_plot_time f of
        Some plot_time \<Rightarrow>
          if time_col \<in> set (columns d) then set_column d ''_plot_time_'' plot_time
          else d
      | None \<Rightarrow>
          if time_col \<in> set (columns d)
          then set_column d ''_plot_time_'' (column_values d time_col)
          else d)"

text \<open>The default branch: outer join on the plot time, then the labels ending in \<open>_dup\<close>
  are removed.\<close>

definition merge_default :: "dataframe \<Rightarrow> dataframe \<Rightarrow> error + dataframe" where
  "merge_default result temp_df =
     bind_err (merge_outer result temp_df ''_plot_time_'' [] ''_dup'') (\<lambda>m.
       select_columns m (filter (\<lambda>c. \<not> ends_with c ''_dup'') (columns m)))"

definition merge_step :: "asof_join \<Rightarrow> dataframe \<Rightarrow> DataFile \<Rightarrow> dataframe \<Rightarrow> error + dataframe" where
  "merge_step asof result f temp_df =
     (if join_strategy f = Some APPEND_SEGMENT then Inr (concat_frames result temp_df)
      else if join_strategy f = Some TIME_NEAREST
      then bind_err (sort_values result ''_plot_time_'') (\<lambda>l.
           bind_err (sort_values temp_df ''_plot_time_'') (\<lambda>r.
           asof l r (join_tolerance f)))
      else merge_default result temp_df)"

fun merge_loop ::
  "asof_join \<Rightarrow> string \<Rightarrow> DataFile list \<Rightarrow> dataframe option \<Rightarrow> error + dataframe option" where
  "merge_loop asof time_col [] result = Inr result"
| "merge_loop asof time_col (f # fs) result =
     (case dataframe f of
        None \<Rightarrow> merge_loop asof time_col fs result
      | Some d \<Rightarrow>
          (case result of
             None \<Rightarrow> merge_loop asof time_col fs (Some (with_plot_time time_col f d))
           | Some r \<Rightarrow>
               bind_err (merge_step asof r f (with_plot_time time_col f d))
                 (\<lambda>r'. merge_loop asof time_col fs (Some r'))))"

definition test_time_col :: "Test \<Rightarrow> string" where
  "test_time_col t =
     (if primary_time_column t \<noteq> [] then primary_time_column t
      else (case data_files t of [] \<Rightarrow> [] | f # fs \<Rightarrow> time_column f))"

definition finish_merged :: "Test \<Rightarrow> bool \<Rightarrow> dataframe \<Rightarrow> dataframe" where
  "finish_merged t apply_filter result =
     (let sorted_result =
            (if ''_plot_time_'' \<in> set (columns result)
             then result\<lparr>rows := sort_by (cell result ''_plot_time_'') (rows result)\<rparr>
             else result)
      in if apply_filter \<and> enabled (filter_state t)
         then apply_to_dataframe (filter_state t) sorted_result ''_plot_time_''
         else sorted_result)"

definition get_merged_dataframe :: "asof_join \<Rightarrow> Test \<Rightarrow> bool \<Rightarrow> error + dataframe" where
  "get_merged_dataframe asof t apply_filter =
     (if data_files t = [] then Inr empty_df
      else
        bind_err (merge_loop asof (test_time_col t) (data_files t) None) (\<lambda>result.
          case result of
            None \<Rightarrow> Inr empty_df
          | Some r \<Rightarrow> Inr (finish_merged t apply_filter r)))"

text \<open>\<open>DataMerger.merge_on_alternative_key\<close> with \<open>how="outer"\<close>.\<close>

definition merge_on_alternative_key :: "dataframe \<Rightarrow> dataframe \<Rightarrow> string \<Rightarrow> error + dataframe" where
  "merge_on_alternative_key base_df new_df key_column =
     (let new_cols = key_column #
            filter (\<lambda>c. c \<noteq> key_column \<and> c \<notin> set (columns base_df)) (columns new_df)
      in bind_err (select_columns new_df new_cols) (\<lambda>new_df_filtered.
           merge_outer base_df new_df_filtered key_column ''_x'' ''_y''))"

text \<open>In the examples no file uses TIME_NEAREST, and the nearest-time join is never called.\<close>

definition asof_unused :: asof_join where
  "asof_unused l r tol = Inl ValueError"

section \<open>Properties of the merged table\<close>

definition loaded :: "DataFile list \<Rightarrow> DataFile list" where
  "loaded fs = filter (\<lambda>f. dataframe f \<noteq> None) fs"

lemma merge_loop_loaded:
  "merge_loop asof tc fs res = merge_loop asof tc (loaded fs) res"
proof (induction fs arbitrary: res)
  case Nil
  show ?case by (simp add: loaded_def)
next
  case (Cons f fs)
  show ?case
  proof (cases "dataframe f")
    case None
    then show ?thesis
      using Cons.IH [of res] by (simp add: loaded_def)
  next
    case (Some d)
    then show ?thesis
      using Cons.IH by (cases res) (simp_all add: loaded_def bind_err_def split: sum.splits)
  qed
qed

lemma merge_loop_append:
  "merge_loop asof tc (xs @ ys) res =
     bind_err (merge_loop asof tc xs res) (merge_loop asof tc ys)"
proof (induction xs arbitrary: res)
  case Nil
  show ?case by simp
next
  case (Cons f fs)
  show ?case
    by (cases "dataframe f"; cases res)
       (simp_all add: Cons.IH bind_err_def split: sum.splits)
qed

lemma merge_loop_keeps_Some:
  "merge_loop asof tc fs (Some r) = Inr res \<Longrightarrow> res \<noteq> None"
proof (induction fs arbitrary: r)
  case Nil
  then show ?case by auto
next
  case (Cons f fs)
  then show ?case
    by (cases "dataframe f") (auto simp: bind_err_def split: sum.splits)
qed

lemma merge_loop_nonempty:
  assumes "loaded fs \<noteq> []" and "merge_loop asof tc fs None = Inr res"
  shows "res \<noteq> None"
proof -
  from assms(1) obtain f gs where l: "loaded fs = f # gs"
    by (cases "loaded fs") auto
  then have "f \<in> set (loaded fs)" by simp
  then obtain d where d: "dataframe f = Some d"
    by (auto simp: loaded_def)
  from assms(2) have "merge_loop asof tc (f # gs) None = Inr res"
    by (simp add: merge_loop_loaded [of asof tc fs] l)
  then have "merge_loop asof tc gs (Some (with_plot_time tc f d)) = Inr res"
    by (simp add: d)
  then show ?thesis
    by (rule merge_loop_keeps_Some)
qed

lemma apply_to_dataframe_columns [simp]:
  "columns (apply_to_dataframe fs df tc) = columns df"
  by (simp add: apply_to_dataframe_def boolean_index_def Let_def)

lemma finish_merged_columns [simp]: "columns (finish_merged t b r) = columns r"
  by (simp add: finish_merged_def Let_def)

lemma items_overlap_unfold:
  "items_overlap_with_suffix left right lsuf rsuf =
     (if \<not> (\<exists>c \<in> set left. c \<in> set right) then Inr (left, right)
      else if lsuf = [] \<and> rsuf = [] then Inl ValueError
      else if (\<not> distinct (map (\<lambda>c. if c \<in> set right then c @ lsuf else c) left) \<and>
               suffix_dups (map (\<lambda>c. if c \<in> set right then c @ lsuf else c) left) left \<noteq> []) \<or>
              (\<not> distinct (map (\<lambda>c. if c \<in> set left then c @ rsuf else c) right) \<and>
               suffix_dups (map (\<lambda>c. if c \<in> set left then c @ rsuf else c) right) right \<noteq> []) \<or>
              (\<exists>x \<in> set (map (\<lambda>c. if c \<in> set right then c @ lsuf else c) left).
                 x \<in> set right \<and> x \<notin> set left) \<or>
              (\<exists>x \<in> set (map (\<lambda>c. if c \<in> set left then c @ rsuf else c) right).
                 x \<in> set left \<and> x \<notin> set right)
           then Inl MergeError
           else Inr (map (\<lambda>c. if c \<in> set right then c @ lsuf else c) left,
                     map (\<lambda>c. if c \<in> set left then c @ rsuf else c) right))"
proof -
  let ?tr = "filter (\<lambda>c. c \<in> set right) left"
  let ?ll = "map (\<lambda>c. if c \<in> set right then c @ lsuf else c) left"
  let ?rl = "map (\<lambda>c. if c \<in> set left then c @ rsuf else c) right"
  have e: "?tr = [] \<longleftrightarrow> \<not> (\<exists>c \<in> set left. c \<in> set right)"
    by (simp add: filter_empty_conv)
  have ll: "map (\<lambda>x. if x \<in> set ?tr then x @ lsuf else x) left = ?ll"
    by (rule map_cong [OF refl]) simp
  have rl: "map (\<lambda>x. if x \<in> set ?tr then x @ rsuf else x) right = ?rl"
    by (rule map_cong [OF refl]) simp
  have f1: "filter (\<lambda>x. x \<in> set right \<and> x \<notin> set ?tr) ?ll \<noteq> [] \<longleftrightarrow>
      (\<exists>x \<in> set ?ll. x \<in> set right \<and> x \<notin> set left)"
    unfolding filter_empty_conv by auto
  have f2: "filter (\<lambda>x. x \<in> set left \<and> x \<notin> set ?tr) ?rl \<noteq> [] \<longleftrightarrow>
      (\<exists>x \<in> set ?rl. x \<in> set left \<and> x \<notin> set right)"
    unfolding filter_empty_conv by auto
  have d: "(if \<not> distinct ?ll then suffix_dups ?ll left else []) @
           (if \<not> distinct ?rl then suffix_dups ?rl right else []) @
           filter (\<lambda>x. x \<in> set right \<and> x \<notin> set ?tr) ?ll @
           filter (\<lambda>x. x \<in> set left \<and> x \<notin> set ?tr) ?rl \<noteq> [] \<longleftrightarrow>
        (\<not> distinct ?ll \<and> suffix_dups ?ll left \<noteq> []) \<or>
        (\<not> distinct ?rl \<and> suffix_dups ?rl right \<noteq> []) \<or>
        (\<exists>x \<in> set ?ll. x \<in> set right \<and> x \<notin> set left) \<or>
        (\<exists>x \<in> set ?rl. x \<in> set left \<and> x \<notin> set right)"
    unfolding append_is_Nil_conv de_Morgan_conj f1 f2
    by (cases "distinct ?ll"; cases "distinct ?rl")
       (simp_all only: if_True if_False not_True_eq_False not_False_eq_True simp_thms)
  show ?thesis
    unfolding items_overlap_with_suffix_def Let_def ll rl
    by (simp only: e d)
qed

lemma items_overlap_labels:
  assumes "items_overlap_with_suffix left right lsuf rsuf = Inr (ll, rl)"
  shows "(ll = left \<and> rl = right \<and> \<not> (\<exists>c \<in> set left. c \<in> set right)) \<or>
         (ll = map (\<lambda>c. if c \<in> set right then c @ lsuf else c) left \<and>
          rl = map (\<lambda>c. if c \<in> set left then c @ rsuf else c) right)"
proof (cases "\<exists>c \<in> set left. c \<in> set right")
  case False
  with assms show ?thesis
    by (simp add: items_overlap_unfold)
next
  case True
  show ?thesis
  proof (cases "lsuf = [] \<and> rsuf = []")
    case empty: True
    with True assms show ?thesis
      by (simp add: items_overlap_unfold)
  next
    case False
    let ?ll = "map (\<lambda>c. if c \<in> set right then c @ lsuf else c) left"
    let ?rl = "map (\<lambda>c. if c \<in> set left then c @ rsuf else c) right"
    let ?bad = "(\<not> distinct ?ll \<and> suffix_dups ?ll left \<noteq> []) \<or>
              (\<not> distinct ?rl \<and> suffix_dups ?rl right \<noteq> []) \<or>
              (\<exists>x \<in> set ?ll. x \<in> set right \<and> x \<notin> set left) \<or>
              (\<exists>x \<in> set ?rl. x \<in> set left \<and> x \<notin> set right)"
    have "items_overlap_with_suffix left right lsuf rsuf =
        (if ?bad then Inl MergeError else Inr (?ll, ?rl))"
      unfolding items_overlap_unfold
      using True False by (simp only: if_True if_False not_True_eq_False)
    with assms have "Inr (?ll, ?rl) = (Inr (ll, rl) :: error + (string list \<times> string list))"
      by (cases ?bad) (simp_all only: if_True if_False sum.distinct)
    then show ?thesis
      by (simp only: sum.inject prod.inject) simp
  qed
qed

lemma default_labels:
  assumes "items_overlap_with_suffix left right [] ''_dup'' = Inr (ll, rl)"
  shows "ll = left \<and> rl = map (\<lambda>c. if c \<in> set left then c @ ''_dup'' else c) right"
proof -
  have l: "map (\<lambda>c. if c \<in> set right then c @ [] else c) left = left"
    by (intro map_idI) simp
  from items_overlap_labels [OF assms] show ?thesis
  proof
    assume a: "ll = left \<and> rl = right \<and> \<not> (\<exists>c \<in> set left. c \<in> set right)"
    then have "map (\<lambda>c. if c \<in> set left then c @ ''_dup'' else c) right = right"
      by (intro map_idI) auto
    with a show ?thesis by simp
  next
    assume "ll = map (\<lambda>c. if c \<in> set right then c @ [] else c) left \<and>
          rl = map (\<lambda>c. if c \<in> set left then c @ ''_dup'' else c) right"
    with l show ?thesis by simp
  qed
qed

lemma merge_default_columns:
  assumes "merge_default l r = Inr m"
  shows "columns m =
     filter (\<lambda>c. \<not> ends_with c ''_dup'')
       (columns l @
        map (\<lambda>c. if c \<in> set (columns l) then c @ ''_dup'' else c)
          (filter (\<lambda>c. c \<noteq> ''_plot_time_'') (columns r)))"
proof -
  from assms obtain j where j: "merge_outer l r ''_plot_time_'' [] ''_dup'' = Inr j"
    and s: "select_columns j (filter (\<lambda>c. \<not> ends_with c ''_dup'') (columns j)) = Inr m"
    by (auto simp: merge_default_def bind_err_def split: sum.splits)
  from j obtain ll rl where
    lab: "items_overlap_with_suffix (columns l)
            (filter (\<lambda>c. c \<noteq> ''_plot_time_'') (columns r)) [] ''_dup'' = Inr (ll, rl)"
    and cj: "columns j = ll @ rl"
    by (auto simp: merge_outer_def bind_err_def split: if_splits sum.splits)
  from lab have "ll = columns l \<and>
      rl = map (\<lambda>c. if c \<in> set (columns l) then c @ ''_dup'' else c)
             (filter (\<lambda>c. c \<noteq> ''_plot_time_'') (columns r))"
    by (rule default_labels)
  with cj have "columns j = columns l @
        map (\<lambda>c. if c \<in> set (columns l) then c @ ''_dup'' else c)
          (filter (\<lambda>c. c \<noteq> ''_plot_time_'') (columns r))"
    by simp
  moreover from s have "columns m = filter (\<lambda>c. \<not> ends_with c ''_dup'') (columns j)"
    by (auto simp: select_columns_def split: if_splits)
  ultimately show ?thesis by simp
qed

lemma merge_default_no_dup:
  "merge_default l r = Inr m \<Longrightarrow> c \<in> set (columns m) \<Longrightarrow> \<not> ends_with c ''_dup''"
  by (auto simp: merge_default_columns)

lemma merge_default_needs_plot_time:
  "''_plot_time_'' \<notin> set (columns l) \<or> ''_plot_time_'' \<notin> set (columns r) \<Longrightarrow>
     merge_default l r = Inl KeyError"
  by (auto simp: merge_default_def merge_outer_def)

lemma last_default_no_dup:
  assumes l: "loaded (data_files t) = pre @ [f]" and pre: "pre \<noteq> []"
    and js: "join_strategy f \<noteq> Some APPEND_SEGMENT" "join_strategy f \<noteq> Some TIME_NEAREST"
    and ok: "get_merged_dataframe asof t b = Inr r"
    and c: "c \<in> set (columns r)"
  shows "\<not> ends_with c ''_dup''"
proof -
  let ?tc = "test_time_col t"
  from l have ne: "data_files t \<noteq> []"
    by (auto simp: loaded_def)
  from l have "f \<in> set (loaded (data_files t))" by simp
  then obtain d where d: "dataframe f = Some d"
    by (auto simp: loaded_def)
  from ok ne have b: "bind_err (merge_loop asof ?tc (data_files t) None)
      (\<lambda>result. case result of None \<Rightarrow> Inr empty_df
         | Some r' \<Rightarrow> Inr (finish_merged t b r')) = Inr r"
    by (simp add: get_merged_dataframe_def)
  then obtain res where res: "merge_loop asof ?tc (data_files t) None = Inr res"
    by (cases "merge_loop asof ?tc (data_files t) None") simp_all
  from res have "bind_err (merge_loop asof ?tc pre None) (merge_loop asof ?tc [f]) = Inr res"
    by (simp add: merge_loop_loaded [of asof ?tc "data_files t"] l merge_loop_append)
  then obtain r0 where p: "merge_loop asof ?tc pre None = Inr r0"
    and st: "merge_loop asof ?tc [f] r0 = Inr res"
    by (auto simp: bind_err_def split: sum.splits)
  have "loaded pre = pre"
  proof -
    have "dataframe g \<noteq> None" if "g \<in> set pre" for g
    proof -
      from that have "g \<in> set (loaded (data_files t))"
        by (simp add: l)
      then show ?thesis
        by (simp add: loaded_def)
    qed
    then show ?thesis
      by (simp add: loaded_def filter_id_conv)
  qed
  with pre p have "r0 \<noteq> None"
    using merge_loop_nonempty [of pre asof ?tc r0] by simp
  then obtain r1 where r1: "r0 = Some r1" by auto
  from st obtain m where m: "merge_default r1 (with_plot_time ?tc f d) = Inr m"
    and rm: "res = Some m"
    using js by (auto simp: r1 d merge_step_def bind_err_def split: sum.splits)
  from b res rm have "r = finish_merged t b m" by simp
  with c have "c \<in> set (columns m)" by simp
  with m show ?thesis
    by (rule merge_default_no_dup)
qed

text \<open>
  The default branch on two tables with distinct labels.  The suffix \<open>_dup\<close> makes two labels
  clash exactly when the tables share a label \<open>c\<close> and exactly one of them has the label
  \<open>c_dup\<close>.
\<close>

definition suffix_clash :: "string list \<Rightarrow> string list \<Rightarrow> bool" where
  "suffix_clash left right =
     (\<exists>c \<in> set right. c \<in> set left \<and>
        ((c @ ''_dup'' \<in> set right) \<noteq> (c @ ''_dup'' \<in> set left)))"

lemma duplicated_from_length [simp]: "length (duplicated_from seen xs) = length xs"
  by (induction xs arbitrary: seen) simp_all

lemma duplicated_from_True:
  "True \<in> set (duplicated_from seen xs) \<longleftrightarrow> \<not> (distinct xs \<and> set xs \<inter> set seen = {})"
proof (induction xs arbitrary: seen)
  case Nil
  show ?case by simp
next
  case (Cons x xs)
  show ?case
    by (auto simp: Cons.IH)
qed

lemma duplicated_distinct:
  assumes "distinct xs"
  shows "duplicated xs = replicate (length xs) False"
proof (rule replicate_eqI)
  show "length (duplicated xs) = length xs"
    by (simp add: duplicated_def)
next
  fix y
  assume "y \<in> set (duplicated xs)"
  moreover have "True \<notin> set (duplicated xs)"
    using assms by (simp add: duplicated_def duplicated_from_True)
  ultimately show "y = False"
    by (cases y) auto
qed

lemma zip_replicate_right: "zip xs (replicate (length xs) c) = map (\<lambda>x. (x, c)) xs"
  by (induction xs) simp_all

lemma suffix_dups_distinct:
  assumes d: "distinct orig" and l: "length labels = length orig"
  shows "suffix_dups labels orig \<noteq> [] \<longleftrightarrow> \<not> distinct labels"
proof -
  have dl: "length (duplicated labels) = length labels"
    by (simp add: duplicated_def)
  have "duplicated orig = replicate (length (duplicated labels)) False"
    by (simp add: duplicated_distinct [OF d] dl l)
  then have "suffix_dups labels orig =
      map fst (filter (\<lambda>e. fst (snd e) \<and> \<not> snd (snd e))
        (zip labels (map (\<lambda>a. (a, False)) (duplicated labels))))"
    by (simp add: suffix_dups_def zip_replicate_right case_prod_unfold)
  also have "\<dots> = map fst (filter snd (zip labels (duplicated labels)))"
    by (simp add: zip_map2 filter_map comp_def case_prod_unfold)
  finally have "suffix_dups labels orig \<noteq> [] \<longleftrightarrow>
      (\<exists>e \<in> set (zip labels (duplicated labels)). snd e)"
    by (simp add: filter_empty_conv)
  also have "\<dots> \<longleftrightarrow> (\<exists>b \<in> set (map snd (zip labels (duplicated labels))). b)"
    by auto
  also have "\<dots> \<longleftrightarrow> True \<in> set (duplicated labels)"
    using dl by (auto simp: map_snd_zip)
  also have "\<dots> \<longleftrightarrow> \<not> distinct labels"
    by (simp add: duplicated_def duplicated_from_True)
  finally show ?thesis .
qed

lemma default_labels_error:
  assumes dl: "distinct left" and dr: "distinct right"
  shows "items_overlap_with_suffix left right [] ''_dup'' =
     (if suffix_clash left right then Inl MergeError
      else Inr (left, map (\<lambda>c. if c \<in> set left then c @ ''_dup'' else c) right))"
proof (cases "\<exists>c \<in> set left. c \<in> set right")
  case False
  then have "map (\<lambda>c. if c \<in> set left then c @ ''_dup'' else c) right = right"
    by (intro map_idI) auto
  moreover from False have "\<not> suffix_clash left right"
    by (auto simp: suffix_clash_def)
  ultimately show ?thesis
    using False by (simp add: items_overlap_unfold)
next
  case True
  let ?f = "\<lambda>c. if c \<in> set left then c @ ''_dup'' else c"
  have l: "map (\<lambda>c. if c \<in> set right then c @ [] else c) left = left"
    by (intro map_idI) simp
  have inj: "\<not> inj_on ?f (set right) \<longleftrightarrow>
      (\<exists>c \<in> set right. c \<in> set left \<and> c @ ''_dup'' \<in> set right \<and> c @ ''_dup'' \<notin> set left)"
  proof
    assume "\<not> inj_on ?f (set right)"
    then obtain a b where ab: "a \<in> set right" "b \<in> set right" "a \<noteq> b" "?f a = ?f b"
      by (auto simp: inj_on_def)
    then show "\<exists>c \<in> set right. c \<in> set left \<and> c @ ''_dup'' \<in> set right \<and>
        c @ ''_dup'' \<notin> set left"
      by (cases "a \<in> set left"; cases "b \<in> set left") (auto split: if_splits)
  next
    assume "\<exists>c \<in> set right. c \<in> set left \<and> c @ ''_dup'' \<in> set right \<and>
        c @ ''_dup'' \<notin> set left"
    then obtain c where c: "c \<in> set right" "c \<in> set left" "c @ ''_dup'' \<in> set right"
      "c @ ''_dup'' \<notin> set left"
      by blast
    then have "?f c = ?f (c @ ''_dup'')" and "c \<noteq> c @ ''_dup''"
      by simp_all
    with c show "\<not> inj_on ?f (set right)"
      by (auto simp: inj_on_def)
  qed
  have cross: "(\<exists>x \<in> set (map ?f right). x \<in> set left \<and> x \<notin> set right) \<longleftrightarrow>
      (\<exists>c \<in> set right. c \<in> set left \<and> c @ ''_dup'' \<in> set left \<and> c @ ''_dup'' \<notin> set right)"
    by (auto split: if_splits)
  have sd: "suffix_dups (map ?f right) right \<noteq> [] \<longleftrightarrow> \<not> distinct (map ?f right)"
    using dr by (intro suffix_dups_distinct) simp_all
  have bad: "((\<not> distinct left \<and> suffix_dups left left \<noteq> []) \<or>
              (\<not> distinct (map ?f right) \<and> suffix_dups (map ?f right) right \<noteq> []) \<or>
              (\<exists>x \<in> set left. x \<in> set right \<and> x \<notin> set left) \<or>
              (\<exists>x \<in> set (map ?f right). x \<in> set left \<and> x \<notin> set right)) \<longleftrightarrow>
            suffix_clash left right"
    unfolding cross sd using dl dr inj
    by (simp only: distinct_map suffix_clash_def) blast
  have "items_overlap_with_suffix left right [] ''_dup'' =
      (if ((\<not> distinct left \<and> suffix_dups left left \<noteq> []) \<or>
              (\<not> distinct (map ?f right) \<and> suffix_dups (map ?f right) right \<noteq> []) \<or>
              (\<exists>x \<in> set left. x \<in> set right \<and> x \<notin> set left) \<or>
              (\<exists>x \<in> set (map ?f right). x \<in> set left \<and> x \<notin> set right))
       then Inl MergeError else Inr (left, map ?f right))"
    unfolding items_overlap_unfold l
    using True
    by (simp only: if_True if_False not_True_eq_False not_False_eq_True simp_thms list.simps)
  then show ?thesis
    by (simp only: bad)
qed

lemma merge_default_clash:
  assumes "distinct (columns l)" and "distinct (columns r)"
    and "''_plot_time_'' \<in> set (columns l)" and "''_plot_time_'' \<in> set (columns r)"
  shows "merge_default l r =
     (if suffix_clash (columns l) (filter (\<lambda>c. c \<noteq> ''_plot_time_'') (columns r))
      then Inl MergeError
      else Inr \<lparr>columns = filter (\<lambda>c. \<not> ends_with c ''_dup'')
                 (columns l @ map (\<lambda>c. if c \<in> set (columns l) then c @ ''_dup'' else c)
                    (filter (\<lambda>c. c \<noteq> ''_plot_time_'') (columns r))),
               rows = map (reindex_row
                  \<lparr>columns = columns l @
                      map (\<lambda>c. if c \<in> set (columns l) then c @ ''_dup'' else c)
                        (filter (\<lambda>c. c \<noteq> ''_plot_time_'') (columns r)),
                   rows = outer_rows l r ''_plot_time_''\<rparr>
                  (filter (\<lambda>c. \<not> ends_with c ''_dup'')
                    (columns l @ map (\<lambda>c. if c \<in> set (columns l) then c @ ''_dup'' else c)
                      (filter (\<lambda>c. c \<noteq> ''_plot_time_'') (columns r)))))
                (outer_rows l r ''_plot_time_'')\<rparr>)"
proof -
  have "distinct (filter (\<lambda>c. c \<noteq> ''_plot_time_'') (columns r))"
    using assms(2) by simp
  from default_labels_error [OF assms(1) this] assms(3,4) show ?thesis
    by (simp add: merge_default_def merge_outer_def select_columns_def)
qed

text \<open>The table that the loop of \<open>get_merged_dataframe\<close> makes of a file: \<open>temp_df\<close>.\<close>

definition temp_frame :: "string \<Rightarrow> DataFile \<Rightarrow> dataframe" where
  "temp_frame tc f = (case dataframe f of None \<Rightarrow> empty_df | Some d \<Rightarrow> with_plot_time tc f d)"

lemma merge_two_default:
  assumes l: "loaded (data_files t) = [g, f]"
    and js: "join_strategy f \<noteq> Some APPEND_SEGMENT" "join_strategy f \<noteq> Some TIME_NEAREST"
  shows "get_merged_dataframe asof t b =
     bind_err (merge_default (temp_frame (test_time_col t) g) (temp_frame (test_time_col t) f))
       (\<lambda>m. Inr (finish_merged t b m))"
proof -
  let ?tc = "test_time_col t"
  from l have ne: "data_files t \<noteq> []"
    by (auto simp: loaded_def)
  have "g \<in> set (loaded (data_files t))" and "f \<in> set (loaded (data_files t))"
    by (simp_all add: l)
  then obtain dg df where dg: "dataframe g = Some dg" and df: "dataframe f = Some df"
    by (auto simp: loaded_def)
  have "merge_loop asof ?tc (data_files t) None = merge_loop asof ?tc [g, f] None"
    by (simp only: merge_loop_loaded [of asof ?tc "data_files t"] l)
  also have "\<dots> = bind_err (merge_default (temp_frame ?tc g) (temp_frame ?tc f))
       (\<lambda>m. Inr (Some m))"
    using js by (simp add: dg df temp_frame_def merge_step_def)
  finally show ?thesis
    using ne by (simp add: get_merged_dataframe_def bind_err_def split: sum.splits)
qed

definition flow_file :: DataFile where
  "flow_file =
     new_data_file\<lparr>file_id := ''f1'', headers := [''Time'', ''Flow_dup''],
       dataframe := Some \<lparr>columns = [''Time'', ''Flow_dup''],
                          rows = [[Fin 0, Fin 5], [Fin 1, Fin 6]]\<rparr>,
       time_column := ''Time''\<rparr>"

definition volt_file :: DataFile where
  "volt_file =
     new_data_file\<lparr>file_id := ''f2'', headers := [''Time'', ''Volt''],
       dataframe := Some \<lparr>columns = [''Time'', ''Volt''],
                          rows = [[Fin 0, Fin 12], [Fin 1, Fin 13]]\<rparr>,
       time_column := ''Time''\<rparr>"

definition dup_test :: Test where
  "dup_test = new_test\<lparr>data_files := [flow_file, volt_file], primary_time_column := ''Time''\<rparr>"

definition flow_base_file :: DataFile where
  "flow_base_file =
     new_data_file\<lparr>file_id := ''f1'', headers := [''Time'', ''Flow''],
       dataframe := Some \<lparr>columns = [''Time'', ''Flow''],
                          rows = [[Fin 0, Fin 1], [Fin 1, Fin 2]]\<rparr>,
       time_column := ''Time''\<rparr>"

definition flow_dup_file :: DataFile where
  "flow_dup_file =
     new_data_file\<lparr>file_id := ''f2'', headers := [''Time'', ''Flow'', ''Flow_dup''],
       dataframe := Some \<lparr>columns = [''Time'', ''Flow'', ''Flow_dup''],
                          rows = [[Fin 0, Fin 3, Fin 5], [Fin 1, Fin 4, Fin 6]]\<rparr>,
       time_column := ''Time''\<rparr>"

definition clash_test :: Test where
  "clash_test =
     new_test\<lparr>data_files := [flow_base_file, flow_dup_file], primary_time_column := ''Time''\<rparr>"

text \<open>
  C10 as stated fails.  The second file of the Test has the channels Flow and Flow_dup and
  its join strategy is unset; the first file has the channel Flow.  The incoming Flow is
  renamed Flow_dup, which the incoming table already has: the outer join raises
  \<open>MergeError\<close>, and the genuine channel Flow_dup is not silently dropped from a merged
  table, for \<open>get_merged_dataframe\<close> returns none.
\<close>

theorem genuine_dup_channel_raises:
  "join_strategy flow_dup_file = None \<and>
   headers flow_dup_file = [''Time'', ''Flow'', ''Flow_dup''] \<and>
   headers flow_base_file = [''Time'', ''Flow''] \<and>
   get_merged_dataframe asof_unused clash_test False = Inl MergeError"
  by code_simp

text \<open>
  C10, amended.  A file whose join strategy is unset, TIME_EXACT or ALTERNATIVE_KEY is folded
  in by the default branch.  That branch raises \<open>KeyError\<close> unless both tables have the column
  \<open>_plot_time_\<close>.  On tables with distinct labels that both have it, the branch raises
  \<open>MergeError\<close> exactly when the tables share a label \<open>c\<close> other than \<open>_plot_time_\<close> and exactly
  one of them has the label \<open>c_dup\<close>, and returns a table otherwise.  The columns of a
  returned table are the columns of the accumulated table followed by the other columns of
  the incoming table, those that the accumulated table also has being renamed with the
  suffix \<open>_dup\<close>, and from this list every label that ends in \<open>_dup\<close> is removed.  Hence a Test
  of two loaded files, the second folded in by the default branch, gives the error of that
  branch or the table of that branch, sorted and filtered; and whenever the last loaded file
  of a Test is folded in by the default branch and \<open>get_merged_dataframe\<close> returns a table, no
  column of it ends in \<open>_dup\<close>: a genuine channel with such a name, from either side, is not
  in the result.
\<close>

theorem dup_suffix_columns_dropped:
  "(join_strategy f \<in> {None, Some TIME_EXACT, Some ALTERNATIVE_KEY} \<longrightarrow>
      merge_step asof l f r = merge_default l r) \<and>
   (''_plot_time_'' \<notin> set (columns l) \<or> ''_plot_time_'' \<notin> set (columns r) \<longrightarrow>
      merge_default l r = Inl KeyError) \<and>
   (distinct (columns l) \<and> distinct (columns r) \<and>
    ''_plot_time_'' \<in> set (columns l) \<and> ''_plot_time_'' \<in> set (columns r) \<longrightarrow>
      (suffix_clash (columns l) (filter (\<lambda>c. c \<noteq> ''_plot_time_'') (columns r)) \<longrightarrow>
         merge_default l r = Inl MergeError) \<and>
      (\<not> suffix_clash (columns l) (filter (\<lambda>c. c \<noteq> ''_plot_time_'') (columns r)) \<longrightarrow>
         (\<exists>m. merge_default l r = Inr m))) \<and>
   (merge_default l r = Inr m \<longrightarrow>
      columns m =
        filter (\<lambda>c. \<not> ends_with c ''_dup'')
          (columns l @
           map (\<lambda>c. if c \<in> set (columns l) then c @ ''_dup'' else c)
             (filter (\<lambda>c. c \<noteq> ''_plot_time_'') (columns r))) \<and>
      (\<forall>c \<in> set (columns m). \<not> ends_with c ''_dup'')) \<and>
   (loaded (data_files t) = [g, f] \<and>
    join_strategy f \<in> {None, Some TIME_EXACT, Some ALTERNATIVE_KEY} \<longrightarrow>
      get_merged_dataframe asof t b =
        (case merge_default (temp_frame (test_time_col t) g) (temp_frame (test_time_col t) f) of
           Inl e \<Rightarrow> Inl e
         | Inr m \<Rightarrow> Inr (finish_merged t b m))) \<and>
   (loaded (data_files t) = pre @ [f] \<and> pre \<noteq> [] \<and>
    join_strategy f \<in> {None, Some TIME_EXACT, Some ALTERNATIVE_KEY} \<and>
    get_merged_dataframe asof t b = Inr res \<longrightarrow>
      (\<forall>c \<in> set (columns res). \<not> ends_with c ''_dup''))"
proof (intro conjI impI ballI)
  assume "join_strategy f \<in> {None, Some TIME_EXACT, Some ALTERNATIVE_KEY}"
  then show "merge_step asof l f r = merge_default l r"
    by (auto simp: merge_step_def)
next
  assume "''_plot_time_'' \<notin> set (columns l) \<or> ''_plot_time_'' \<notin> set (columns r)"
  then show "merge_default l r = Inl KeyError"
    by (rule merge_default_needs_plot_time)
next
  assume a: "distinct (columns l) \<and> distinct (columns r) \<and>
    ''_plot_time_'' \<in> set (columns l) \<and> ''_plot_time_'' \<in> set (columns r)"
    and c: "suffix_clash (columns l) (filter (\<lambda>c. c \<noteq> ''_plot_time_'') (columns r))"
  from a have "merge_default l r =
     (if suffix_clash (columns l) (filter (\<lambda>c. c \<noteq> ''_plot_time_'') (columns r))
      then Inl MergeError
      else Inr \<lparr>columns = filter (\<lambda>c. \<not> ends_with c ''_dup'')
                 (columns l @ map (\<lambda>c. if c \<in> set (columns l) then c @ ''_dup'' else c)
                    (filter (\<lambda>c. c \<noteq> ''_plot_time_'') (columns r))),
               rows = map (reindex_row
                  \<lparr>columns = columns l @
                      map (\<lambda>c. if c \<in> set (columns l) then c @ ''_dup'' else c)
                        (filter (\<lambda>c. c \<noteq> ''_plot_time_'') (columns r)),
                   rows = outer_rows l r ''_plot_time_''\<rparr>
                  (filter (\<lambda>c. \<not> ends_with c ''_dup'')
                    (columns l @ map (\<lambda>c. if c \<in> set (columns l) then c @ ''_dup'' else c)
                      (filter (\<lambda>c. c \<noteq> ''_plot_time_'') (columns r)))))
                (outer_rows l r ''_plot_time_'')\<rparr>)"
    by (intro merge_default_clash) simp_all
  with c show "merge_default l r = Inl MergeError"
    by (simp only: if_True)
next
  assume a: "distinct (columns l) \<and> distinct (columns r) \<and>
    ''_plot_time_'' \<in> set (columns l) \<and> ''_plot_time_'' \<in> set (columns r)"
    and c: "\<not> suffix_clash (columns l) (filter (\<lambda>c. c \<noteq> ''_plot_time_'') (columns r))"
  from a have "merge_default l r =
     (if suffix_clash (columns l) (filter (\<lambda>c. c \<noteq> ''_plot_time_'') (columns r))
      then Inl MergeError
      else Inr \<lparr>columns = filter (\<lambda>c. \<not> ends_with c ''_dup'')
                 (columns l @ map (\<lambda>c. if c \<in> set (columns l) then c @ ''_dup'' else c)
                    (filter (\<lambda>c. c \<noteq> ''_plot_time_'') (columns r))),
               rows = map (reindex_row
                  \<lparr>columns = columns l @
                      map (\<lambda>c. if c \<in> set (columns l) then c @ ''_dup'' else c)
                        (filter (\<lambda>c. c \<noteq> ''_plot_time_'') (columns r)),
                   rows = outer_rows l r ''_plot_time_''\<rparr>
                  (filter (\<lambda>c. \<not> ends_with c ''_dup'')
                    (columns l @ map (\<lambda>c. if c \<in> set (columns l) then c @ ''_dup'' else c)
                      (filter (\<lambda>c. c \<noteq> ''_plot_time_'') (columns r)))))
                (outer_rows l r ''_plot_time_'')\<rparr>)"
    by (intro merge_default_clash) simp_all
  with c show "\<exists>m. merge_default l r = Inr m"
    by (simp only: if_False) blast
next
  assume "merge_default l r = Inr m"
  then show "columns m =
        filter (\<lambda>c. \<not> ends_with c ''_dup'')
          (columns l @
           map (\<lambda>c. if c \<in> set (columns l) then c @ ''_dup'' else c)
             (filter (\<lambda>c. c \<noteq> ''_plot_time_'') (columns r)))"
    by (rule merge_default_columns)
next
  fix c
  assume "merge_default l r = Inr m" and "c \<in> set (columns m)"
  then show "\<not> ends_with c ''_dup''"
    by (rule merge_default_no_dup)
next
  assume a: "loaded (data_files t) = [g, f] \<and>
    join_strategy f \<in> {None, Some TIME_EXACT, Some ALTERNATIVE_KEY}"
  then have "join_strategy f \<noteq> Some APPEND_SEGMENT" and "join_strategy f \<noteq> Some TIME_NEAREST"
    by auto
  with a have "get_merged_dataframe asof t b =
     bind_err (merge_default (temp_frame (test_time_col t) g) (temp_frame (test_time_col t) f))
       (\<lambda>m. Inr (finish_merged t b m))"
    by (intro merge_two_default) simp_all
  then show "get_merged_dataframe asof t b =
        (case merge_default (temp_frame (test_time_col t) g) (temp_frame (test_time_col t) f) of
           Inl e \<Rightarrow> Inl e
         | Inr m \<Rightarrow> Inr (finish_merged t b m))"
    by (simp add: bind_err_def)
next
  fix c
  assume a: "loaded (data_files t) = pre @ [f] \<and> pre \<noteq> [] \<and>
    join_strategy f \<in> {None, Some TIME_EXACT, Some ALTERNATIVE_KEY} \<and>
    get_merged_dataframe asof t b = Inr res"
    and c: "c \<in> set (columns res)"
  from a have "join_strategy f \<noteq> Some APPEND_SEGMENT" and "join_strategy f \<noteq> Some TIME_NEAREST"
    by auto
  with a c show "\<not> ends_with c ''_dup''"
    using last_default_no_dup [of t pre f asof b res c] by blast
qed

theorem dup_suffix_columns_dropped_witness:
  "loaded (data_files dup_test) = [flow_file, volt_file] \<and>
   join_strategy volt_file \<in> {None, Some TIME_EXACT, Some ALTERNATIVE_KEY} \<and>
   dataframe flow_file =
     Some \<lparr>columns = [''Time'', ''Flow_dup''], rows = [[Fin 0, Fin 5], [Fin 1, Fin 6]]\<rparr> \<and>
   get_merged_dataframe asof_unused dup_test False =
     Inr \<lparr>columns = [''Time'', ''_plot_time_'', ''Volt''],
          rows = [[Fin 0, Fin 0, Fin 12], [Fin 1, Fin 1, Fin 13]]\<rparr> \<and>
   list_all (\<lambda>c. \<not> ends_with c ''_dup'')
     (columns \<lparr>columns = [''Time'', ''_plot_time_'', ''Volt''],
               rows = [[Fin 0, Fin 0, Fin 12], [Fin 1, Fin 1, Fin 13]]\<rparr>) \<and>
   loaded (data_files clash_test) = [flow_base_file, flow_dup_file] \<and>
   join_strategy flow_dup_file \<in> {None, Some TIME_EXACT, Some ALTERNATIVE_KEY} \<and>
   columns (temp_frame ''Time'' flow_base_file) = [''Time'', ''Flow'', ''_plot_time_''] \<and>
   columns (temp_frame ''Time'' flow_dup_file) =
     [''Time'', ''Flow'', ''Flow_dup'', ''_plot_time_''] \<and>
   merge_default (temp_frame ''Time'' flow_base_file) (temp_frame ''Time'' flow_dup_file) =
     Inl MergeError \<and>
   get_merged_dataframe asof_unused clash_test False = Inl MergeError \<and>
   merge_default (temp_frame ''Time'' flow_base_file)
     \<lparr>columns = [''Volt''], rows = [[Fin 12]]\<rparr> = Inl KeyError \<and>
   merge_default
     \<lparr>columns = [''Time'', ''Time_dup'', ''_plot_time_''], rows = [[Fin 0, Fin 7, Fin 0]]\<rparr>
     \<lparr>columns = [''Time'', ''_plot_time_''], rows = [[Fin 0, Fin 0]]\<rparr> = Inl MergeError"
proof -
  let ?res = "\<lparr>columns = [''Time'', ''_plot_time_'', ''Volt''],
              rows = [[Fin 0, Fin 0, Fin 12], [Fin 1, Fin 1, Fin 13]]\<rparr>"
  have l1: "loaded (data_files dup_test) = [flow_file, volt_file]"
    by (simp add: loaded_def dup_test_def flow_file_def volt_file_def)
  have j1: "join_strategy volt_file \<in> {None, Some TIME_EXACT, Some ALTERNATIVE_KEY}"
    by (simp add: volt_file_def new_data_file_def)
  have d: "dataframe flow_file =
     Some \<lparr>columns = [''Time'', ''Flow_dup''], rows = [[Fin 0, Fin 5], [Fin 1, Fin 6]]\<rparr>"
    by (simp add: flow_file_def)
  have tc1: "test_time_col dup_test = ''Time''"
    by (simp add: test_time_col_def dup_test_def)
  have ev1: "(case merge_default (temp_frame ''Time'' flow_file) (temp_frame ''Time'' volt_file) of
           Inl e \<Rightarrow> Inl e
         | Inr m \<Rightarrow> Inr (finish_merged dup_test False m)) = Inr ?res"
    by code_simp
  from dup_suffix_columns_dropped
         [where t = dup_test and g = flow_file and f = volt_file and asof = asof_unused
            and b = False] l1 j1
  have "get_merged_dataframe asof_unused dup_test False =
      (case merge_default (temp_frame (test_time_col dup_test) flow_file)
              (temp_frame (test_time_col dup_test) volt_file) of
           Inl e \<Rightarrow> Inl e
         | Inr m \<Rightarrow> Inr (finish_merged dup_test False m))"
    by blast
  then have e1: "get_merged_dataframe asof_unused dup_test False = Inr ?res"
    by (simp only: tc1 ev1)
  from l1 have l1': "loaded (data_files dup_test) = [flow_file] @ [volt_file]"
    by simp
  from dup_suffix_columns_dropped
         [where t = dup_test and pre = "[flow_file]" and f = volt_file and asof = asof_unused
            and b = False and res = ?res] l1' j1 e1
  have "\<forall>c \<in> set (columns ?res). \<not> ends_with c ''_dup''"
    by blast
  then have n1: "list_all (\<lambda>c. \<not> ends_with c ''_dup'') (columns ?res)"
    by (simp only: list_all_iff)
  have l2: "loaded (data_files clash_test) = [flow_base_file, flow_dup_file]"
    by (simp add: loaded_def clash_test_def flow_base_file_def flow_dup_file_def)
  have j2: "join_strategy flow_dup_file \<in> {None, Some TIME_EXACT, Some ALTERNATIVE_KEY}"
    by (simp add: flow_dup_file_def new_data_file_def)
  have tc2: "test_time_col clash_test = ''Time''"
    by (simp add: test_time_col_def clash_test_def)
  have c1: "columns (temp_frame ''Time'' flow_base_file) = [''Time'', ''Flow'', ''_plot_time_'']"
    by code_simp
  have c2: "columns (temp_frame ''Time'' flow_dup_file) =
     [''Time'', ''Flow'', ''Flow_dup'', ''_plot_time_'']"
    by code_simp
  have h2: "distinct (columns (temp_frame ''Time'' flow_base_file)) \<and>
      distinct (columns (temp_frame ''Time'' flow_dup_file)) \<and>
      ''_plot_time_'' \<in> set (columns (temp_frame ''Time'' flow_base_file)) \<and>
      ''_plot_time_'' \<in> set (columns (temp_frame ''Time'' flow_dup_file))"
    by (simp add: c1 c2)
  have s2: "suffix_clash (columns (temp_frame ''Time'' flow_base_file))
      (filter (\<lambda>c. c \<noteq> ''_plot_time_'') (columns (temp_frame ''Time'' flow_dup_file)))"
    by (simp add: c1 c2 suffix_clash_def)
  from dup_suffix_columns_dropped
         [where l = "temp_frame ''Time'' flow_base_file"
            and r = "temp_frame ''Time'' flow_dup_file"] h2 s2
  have m2: "merge_default (temp_frame ''Time'' flow_base_file)
      (temp_frame ''Time'' flow_dup_file) = Inl MergeError"
    by blast
  from dup_suffix_columns_dropped
         [where t = clash_test and g = flow_base_file and f = flow_dup_file
            and asof = asof_unused and b = False] l2 j2
  have "get_merged_dataframe asof_unused clash_test False =
      (case merge_default (temp_frame (test_time_col clash_test) flow_base_file)
              (temp_frame (test_time_col clash_test) flow_dup_file) of
           Inl e \<Rightarrow> Inl e
         | Inr m \<Rightarrow> Inr (finish_merged clash_test False m))"
    by blast
  then have e2: "get_merged_dataframe asof_unused clash_test False = Inl MergeError"
    by (simp add: tc2 m2)
  have "''_plot_time_'' \<notin> set (columns (temp_frame ''Time'' flow_base_file)) \<or>
      ''_plot_time_'' \<notin> set (columns \<lparr>columns = [''Volt''], rows = [[Fin 12]]\<rparr>)"
    by simp
  with dup_suffix_columns_dropped
         [where l = "temp_frame ''Time'' flow_base_file"
            and r = "\<lparr>columns = [''Volt''], rows = [[Fin 12]]\<rparr>"]
  have k: "merge_default (temp_frame ''Time'' flow_base_file)
     \<lparr>columns = [''Volt''], rows = [[Fin 12]]\<rparr> = Inl KeyError"
    by blast
  let ?l3 = "\<lparr>columns = [''Time'', ''Time_dup'', ''_plot_time_''],
              rows = [[Fin 0, Fin 7, Fin 0]]\<rparr>"
  let ?r3 = "\<lparr>columns = [''Time'', ''_plot_time_''], rows = [[Fin 0, Fin 0]]\<rparr>"
  have "distinct (columns ?l3) \<and> distinct (columns ?r3) \<and>
      ''_plot_time_'' \<in> set (columns ?l3) \<and> ''_plot_time_'' \<in> set (columns ?r3)"
    by simp
  moreover have "suffix_clash (columns ?l3)
      (filter (\<lambda>c. c \<noteq> ''_plot_time_'') (columns ?r3))"
    by (simp add: suffix_clash_def)
  ultimately have m3: "merge_default ?l3 ?r3 = Inl MergeError"
    using dup_suffix_columns_dropped [where l = ?l3 and r = ?r3] by blast
  from l1 j1 d e1 n1 l2 j2 c1 c2 m2 e2 k m3 show ?thesis
    by (intro conjI)
qed


































lemma join_key_ignored:
  "merge_step asof r (f\<lparr>join_key := k\<rparr>) temp_df = merge_step asof r f temp_df"
  by (simp add: merge_step_def)

definition id_file :: DataFile where
  "id_file =
     new_data_file\<lparr>file_id := ''f1'', headers := [''Time'', ''ID'', ''Temp''],
       dataframe := Some \<lparr>columns = [''Time'', ''ID'', ''Temp''],
                          rows = [[Fin 0, Fin 1, Fin 20], [Fin 1, Fin 2, Fin 21],
                                  [Fin 2, Fin 3, Fin 22]]\<rparr>,
       time_column := ''Time''\<rparr>"

definition id_volt_frame :: dataframe where
  "id_volt_frame =
     \<lparr>columns = [''Time'', ''ID'', ''Volt''],
      rows = [[Fin 0, Fin 1, Fin 12], [Fin 2, Fin 2, Fin 13], [Fin 4, Fin 3, Fin 14]]\<rparr>"

definition id_volt_file :: DataFile where
  "id_volt_file =
     new_data_file\<lparr>file_id := ''f2'', headers := [''Time'', ''ID'', ''Volt''],
       dataframe := Some id_volt_frame, time_column := ''Time'',
       join_strategy := Some ALTERNATIVE_KEY, join_key := Some ''ID''\<rparr>"

definition key_test :: Test where
  "key_test = new_test\<lparr>data_files := [id_file, id_volt_file], primary_time_column := ''Time''\<rparr>"

definition id_base_frame :: dataframe where
  "id_base_frame =
     \<lparr>columns = [''Time'', ''ID'', ''Temp'', ''_plot_time_''],
      rows = [[Fin 0, Fin 1, Fin 20, Fin 0], [Fin 1, Fin 2, Fin 21, Fin 1],
              [Fin 2, Fin 3, Fin 22, Fin 2]]\<rparr>"

text \<open>
  C2 at a concrete input.  The second file is to be joined on its key column ID
  (ALTERNATIVE_KEY); the rows of the two files agree on ID 1, 2, 3, the plot times are
  0, 1, 2 and 0, 2, 4.  \<open>get_merged_dataframe\<close> joins on the plot time, so Volt 13 (ID 2) ends
  up in the row of ID 3 and Volt 14 in a row without ID; joining the same two tables with
  \<open>DataMerger.merge_on_alternative_key\<close> on ID gives the three rows that the claim describes.
\<close>

theorem alternative_key_joins_on_plot_time:
  "join_strategy id_volt_file = Some ALTERNATIVE_KEY \<and> join_key id_volt_file = Some ''ID'' \<and>
   get_merged_dataframe asof_unused key_test False =
     Inr \<lparr>columns = [''Time'', ''ID'', ''Temp'', ''_plot_time_'', ''Volt''],
          rows = [[Fin 0, Fin 1, Fin 20, Fin 0, Fin 12], [Fin 1, Fin 2, Fin 21, Fin 1, NaN],
                  [Fin 2, Fin 3, Fin 22, Fin 2, Fin 13], [NaN, NaN, NaN, Fin 4, Fin 14]]\<rparr> \<and>
   with_plot_time ''Time'' id_file
     \<lparr>columns = [''Time'', ''ID'', ''Temp''],
      rows = [[Fin 0, Fin 1, Fin 20], [Fin 1, Fin 2, Fin 21], [Fin 2, Fin 3, Fin 22]]\<rparr> =
     id_base_frame \<and>
   merge_on_alternative_key id_base_frame (with_plot_time ''Time'' id_volt_file id_volt_frame)
       ''ID'' =
     Inr \<lparr>columns = [''Time'', ''ID'', ''Temp'', ''_plot_time_'', ''Volt''],
          rows = [[Fin 0, Fin 1, Fin 20, Fin 0, Fin 12], [Fin 1, Fin 2, Fin 21, Fin 1, Fin 13],
                  [Fin 2, Fin 3, Fin 22, Fin 2, Fin 14]]\<rparr>"
  by code_simp

section \<open>Comparing tests\<close>

text \<open>\<open>Test.get_time_range\<close>: the loop starts from \<open>(inf, -inf)\<close>.\<close>

fun time_range_loop :: "DataFile list \<Rightarrow> pyfloat \<times> pyfloat \<Rightarrow> pyfloat \<times> pyfloat" where
  "time_range_loop [] acc = acc"
| "time_range_loop (df # dfs) (min_t, max_t) =
     time_range_loop dfs
       (py_min min_t (fst (get_time_range df)), py_max max_t (snd (get_time_range df)))"

definition Test_get_time_range :: "Test \<Rightarrow> pyfloat \<times> pyfloat" where
  "Test_get_time_range t =
     (let r = time_range_loop (data_files t) (PosInf, NegInf)
      in if feq (fst r) PosInf then (Fin 0, Fin 0) else r)"

definition cols_to_keep :: "dataframe \<Rightarrow> string list \<Rightarrow> string list" where
  "cols_to_keep df selected_channels =
     ''_plot_time_'' # filter (\<lambda>ch. ch \<in> set (columns df)) selected_channels"

text \<open>The loop of the OVERLAY mode of \<open>prepare_tests_for_comparison\<close>.\<close>

fun overlay_loop ::
  "asof_join \<Rightarrow> string list \<Rightarrow> Test list \<Rightarrow> (string, dataframe) dict \<Rightarrow>
     error + (string, dataframe) dict" where
  "overlay_loop asof sel [] result = Inr result"
| "overlay_loop asof sel (test # tests) result =
     bind_err (get_merged_dataframe asof test True) (\<lambda>df.
       if df_empty df then overlay_loop asof sel tests result
       else bind_err (select_columns df (cols_to_keep df sel)) (\<lambda>df_copy.
         overlay_loop asof sel tests (dict_set result (test_id test) df_copy)))"

text \<open>The loop of the CONCATENATE mode, with the index \<open>i\<close> of \<open>enumerate\<close> and the
  cumulative offset.\<close>

definition shift_plot_time :: "pyfloat \<Rightarrow> dataframe \<Rightarrow> dataframe" where
  "shift_plot_time cumulative_offset df_copy =
     set_column df_copy ''_plot_time_''
       (map (\<lambda>x. fadd x cumulative_offset) (column_values df_copy ''_plot_time_''))"

fun concatenate_loop ::
  "asof_join \<Rightarrow> pyfloat \<Rightarrow> string list \<Rightarrow> nat \<Rightarrow> Test list \<Rightarrow> pyfloat \<Rightarrow>
     (string, dataframe) dict \<Rightarrow> error + (string, dataframe) dict" where
  "concatenate_loop asof gap sel i [] cumulative_offset result = Inr result"
| "concatenate_loop asof gap sel i (test # tests) cumulative_offset result =
     bind_err (get_merged_dataframe asof test True) (\<lambda>df.
       if df_empty df then concatenate_loop asof gap sel (Suc i) tests cumulative_offset result
       else bind_err (select_columns df (cols_to_keep df sel)) (\<lambda>df_copy0.
         let df_copy = (if i > 0 then shift_plot_time cumulative_offset df_copy0 else df_copy0);
             result1 = dict_set result (test_id test) df_copy;
             offset1 =
               (if ''_plot_time_'' \<in> set (columns df_copy)
                then fadd (series_max (column_values df_copy ''_plot_time_'')) gap
                else cumulative_offset)
         in concatenate_loop asof gap sel (Suc i) tests offset1 result1))"

definition prepare_tests_for_comparison ::
  "asof_join \<Rightarrow> CompareMode \<Rightarrow> pyfloat \<Rightarrow> Test list \<Rightarrow> string list \<Rightarrow>
     error + (string, dataframe) dict" where
  "prepare_tests_for_comparison asof mode gap tests selected_channels =
     (case mode of
        OVERLAY \<Rightarrow> overlay_loop asof selected_channels tests []
      | CONCATENATE \<Rightarrow> concatenate_loop asof gap selected_channels 0 tests (Fin 0) [])"

fun overlay_range_loop :: "Test list \<Rightarrow> pyfloat \<times> pyfloat \<Rightarrow> pyfloat \<times> pyfloat" where
  "overlay_range_loop [] acc = acc"
| "overlay_range_loop (test # tests) (min_t, max_t) =
     overlay_range_loop tests
       (py_min min_t (fst (Test_get_time_range test)),
        py_max max_t (snd (Test_get_time_range test)))"

fun concatenate_range_loop :: "pyfloat \<Rightarrow> nat \<Rightarrow> Test list \<Rightarrow> pyfloat \<Rightarrow> pyfloat" where
  "concatenate_range_loop gap i [] cumulative = cumulative"
| "concatenate_range_loop gap i (test # tests) cumulative =
     (let duration = fsub (snd (Test_get_time_range test)) (fst (Test_get_time_range test));
          cumulative1 = (if i > 0 then fadd cumulative gap else cumulative)
      in concatenate_range_loop gap (Suc i) tests (fadd cumulative1 duration))"

definition get_combined_time_range ::
  "CompareMode \<Rightarrow> pyfloat \<Rightarrow> Test list \<Rightarrow> pyfloat \<times> pyfloat" where
  "get_combined_time_range mode gap tests =
     (if tests = [] then (Fin 0, Fin 1)
      else (case mode of
              OVERLAY \<Rightarrow> overlay_range_loop tests (PosInf, NegInf)
            | CONCATENATE \<Rightarrow> (Fin 0, concatenate_range_loop gap 0 tests (Fin 0))))"

definition run_a :: Test where
  "run_a =
     new_test\<lparr>test_id := ''a'', primary_time_column := ''Time'', data_files :=
       [new_data_file\<lparr>file_id := ''fa'', time_column := ''Time'', dataframe :=
          Some \<lparr>columns = [''Time'', ''Channel_A''],
                rows = [[Fin 0, Fin 1], [Fin 5, Fin 2], [Fin 10, Fin 3]]\<rparr>\<rparr>]\<rparr>"

definition run_b :: Test where
  "run_b =
     new_test\<lparr>test_id := ''b'', primary_time_column := ''Time'', data_files :=
       [new_data_file\<lparr>file_id := ''fb'', time_column := ''Time'', dataframe :=
          Some \<lparr>columns = [''Time'', ''Channel_A''],
                rows = [[Fin 0, Fin 4], [Fin 4, Fin 5], [Fin 8, Fin 6]]\<rparr>\<rparr>]\<rparr>"

definition run_empty :: Test where
  "run_empty = new_test\<lparr>test_id := ''e''\<rparr>"

text \<open>
  C7 at a concrete input: the tests a (plot times 0 to 10), e (no data files, so its prepared
  table is empty) and b (plot times 0 to 8), with the gap 1.
  \<open>prepare_tests_for_comparison\<close> skips e: b is shifted to 11 ... 19, exactly as without e.
  \<open>get_combined_time_range\<close> does not skip e: it adds the gap once more, and returns (0, 20)
  with e in the list and (0, 19) without it.
\<close>

theorem empty_test_adds_gap_to_range:
  "get_merged_dataframe asof_unused run_empty True = Inr empty_df \<and>
   prepare_tests_for_comparison asof_unused CONCATENATE (Fin 1) [run_a, run_empty, run_b]
       [''Channel_A''] =
     Inr [(''a'', \<lparr>columns = [''_plot_time_'', ''Channel_A''],
                   rows = [[Fin 0, Fin 1], [Fin 5, Fin 2], [Fin 10, Fin 3]]\<rparr>),
          (''b'', \<lparr>columns = [''_plot_time_'', ''Channel_A''],
                   rows = [[Fin 11, Fin 4], [Fin 15, Fin 5], [Fin 19, Fin 6]]\<rparr>)] \<and>
   prepare_tests_for_comparison asof_unused CONCATENATE (Fin 1) [run_a, run_b]
       [''Channel_A''] =
     prepare_tests_for_comparison asof_unused CONCATENATE (Fin 1) [run_a, run_empty, run_b]
       [''Channel_A''] \<and>
   get_combined_time_range CONCATENATE (Fin 1) [run_a, run_empty, run_b] = (Fin 0, Fin 20) \<and>
   get_combined_time_range CONCATENATE (Fin 1) [run_a, run_b] = (Fin 0, Fin 19)"
  by code_simp

text \<open>One round of the CONCATENATE loop: the error, or the new offset and result.\<close>

definition concatenate_round ::
  "asof_join \<Rightarrow> pyfloat \<Rightarrow> string list \<Rightarrow> nat \<Rightarrow> Test \<Rightarrow> pyfloat \<Rightarrow>
     (string, dataframe) dict \<Rightarrow> error + (pyfloat \<times> (string, dataframe) dict)" where
  "concatenate_round asof gap sel i test cumulative_offset result =
     bind_err (get_merged_dataframe asof test True) (\<lambda>df.
       if df_empty df then Inr (cumulative_offset, result)
       else bind_err (select_columns df (cols_to_keep df sel)) (\<lambda>df_copy0.
         let df_copy = (if i > 0 then shift_plot_time cumulative_offset df_copy0 else df_copy0)
         in Inr (if ''_plot_time_'' \<in> set (columns df_copy)
                 then fadd (series_max (column_values df_copy ''_plot_time_'')) gap
                 else cumulative_offset,
                 dict_set result (test_id test) df_copy)))"

lemma concatenate_loop_round:
  "concatenate_loop asof gap sel i (test # tests) cum result =
     bind_err (concatenate_round asof gap sel i test cum result)
       (\<lambda>p. concatenate_loop asof gap sel (Suc i) tests (fst p) (snd p))"
  by (simp add: concatenate_round_def bind_err_def Let_def split: sum.splits)

lemma map2_same: "map2 f xs (map g xs) = map (\<lambda>x. f x (g x)) xs"
  by (induction xs) simp_all

lemma update_cell_same: "r[index_of c (columns d) := cell d c r] = r"
  by (cases "index_of c (columns d) < length r") (simp_all add: cell_def Let_def not_less list_update_beyond)

lemma set_column_same:
  "c \<in> set (columns d) \<Longrightarrow> set_column d c (column_values d c) = d"
  by (simp add: set_column_def column_values_def map2_same update_cell_same)

lemma shift_plot_time_zero:
  "''_plot_time_'' \<in> set (columns d) \<Longrightarrow> shift_plot_time (Fin 0) d = d"
  by (simp add: shift_plot_time_def fadd_zero set_column_same)

lemma select_cols_to_keep:
  "select_columns df (cols_to_keep df sel) = Inr d \<Longrightarrow> ''_plot_time_'' \<in> set (columns d)"
  by (auto simp: select_columns_def cols_to_keep_def split: if_splits)

lemma concatenate_round_index:
  "0 < i \<Longrightarrow> 0 < j \<Longrightarrow>
     concatenate_round asof gap sel i test cum result =
     concatenate_round asof gap sel j test cum result"
  by (simp add: concatenate_round_def Let_def cong: if_cong)

lemma concatenate_round_start:
  "concatenate_round asof gap sel 0 test (Fin 0) result =
     concatenate_round asof gap sel (Suc 0) test (Fin 0) result"
proof (cases "get_merged_dataframe asof test True")
  case (Inl e)
  then show ?thesis
    by (simp add: concatenate_round_def)
next
  case (Inr df)
  show ?thesis
  proof (cases "select_columns df (cols_to_keep df sel)")
    case (Inl e)
    with Inr show ?thesis
      by (simp add: concatenate_round_def)
  next
    case inner: (Inr d)
    from select_cols_to_keep [OF inner] have "shift_plot_time (Fin 0) d = d"
      by (rule shift_plot_time_zero)
    with Inr inner show ?thesis
      by (simp add: concatenate_round_def)
  qed
qed

lemma concatenate_loop_index:
  "0 < i \<Longrightarrow> concatenate_loop asof gap sel i tests cum result =
     concatenate_loop asof gap sel (Suc 0) tests cum result"
proof (induction tests arbitrary: i cum result)
  case Nil
  show ?case by simp
next
  case (Cons test tests)
  have r: "concatenate_round asof gap sel i test cum result =
      concatenate_round asof gap sel (Suc 0) test cum result"
    using Cons.prems by (intro concatenate_round_index) simp_all
  have "concatenate_loop asof gap sel (Suc i) tests c d =
      concatenate_loop asof gap sel (Suc (Suc 0)) tests c d" for c d
    using Cons.IH [of "Suc i" c d] Cons.IH [of "Suc (Suc 0)" c d] by simp
  then show ?case
    by (simp only: concatenate_loop_round r)
qed

lemma concatenate_loop_start:
  "concatenate_loop asof gap sel 0 tests (Fin 0) result =
     concatenate_loop asof gap sel (Suc 0) tests (Fin 0) result"
proof (cases tests)
  case Nil
  then show ?thesis by simp
next
  case (Cons test rest)
  have "concatenate_loop asof gap sel (Suc 0) rest c d =
      concatenate_loop asof gap sel (Suc (Suc 0)) rest c d" for c d
    using concatenate_loop_index [of "Suc (Suc 0)" asof gap sel rest c d] by simp
  then show ?thesis
    by (simp only: Cons concatenate_loop_round concatenate_round_start)
qed

lemma concatenate_loop_skips_empty:
  assumes "get_merged_dataframe asof e True = Inr df" and "df_empty df"
    and "i = 0 \<longrightarrow> cum = Fin 0"
  shows "concatenate_loop asof gap sel i (pre @ e # post) cum result =
         concatenate_loop asof gap sel i (pre @ post) cum result"
  using assms(3)
proof (induction pre arbitrary: i cum result)
  case Nil
  have skip: "concatenate_loop asof gap sel i (e # post) cum result =
      concatenate_loop asof gap sel (Suc i) post cum result"
    using assms(1,2) by simp
  show ?case
  proof (cases "i = 0")
    case True
    with Nil have "cum = Fin 0" by simp
    with True skip show ?thesis
      by (simp add: concatenate_loop_start)
  next
    case False
    then have "0 < i" by simp
    from concatenate_loop_index [OF this] concatenate_loop_index [of "Suc i"] skip
    show ?thesis by simp
  qed
next
  case (Cons x pre)
  have "concatenate_loop asof gap sel (Suc i) (pre @ e # post) c d =
      concatenate_loop asof gap sel (Suc i) (pre @ post) c d" for c d
    by (rule Cons.IH) simp
  then show ?case
    by (simp only: append_Cons concatenate_loop_round)
qed

lemma prepare_skips_empty:
  assumes "get_merged_dataframe asof e True = Inr df" and "df_empty df"
  shows "prepare_tests_for_comparison asof CONCATENATE gap (pre @ e # post) sel =
         prepare_tests_for_comparison asof CONCATENATE gap (pre @ post) sel"
  using concatenate_loop_skips_empty [OF assms, of 0 "Fin 0"]
  by (simp add: prepare_tests_for_comparison_def)

lemma range_counts_empty:
  assumes "Test_get_time_range e = (Fin 0, Fin 0)" and "0 < i"
  shows "concatenate_range_loop gap i (e # post) (Fin c) =
         concatenate_range_loop gap (Suc i) post (fadd (Fin c) gap)"
  using assms by (cases gap) (simp_all add: Let_def fsub_def)

end
